theory Spec2Isabelle
  imports Complex_Main "HOL-Library.Multiset"
begin

section \<open>Strings\<close>

text \<open>
  Python strings are modelled as \<open>string\<close> (lists of \<open>char\<close>). The string methods the
  program uses are given for the ASCII range: \<open>lower\<close> maps \<open>A\<close>..\<open>Z\<close> to \<open>a\<close>..\<open>z\<close>,
  \<open>strip\<close> removes the ASCII characters for which \<open>str.isspace\<close> holds, \<open>splitlines\<close>
  breaks at the ASCII line boundaries. Characters above 127 are left alone by all three.
\<close>

definition upper_lower :: "(char \<times> char) list" where
  "upper_lower = zip ''ABCDEFGHIJKLMNOPQRSTUVWXYZ'' ''abcdefghijklmnopqrstuvwxyz''"

definition lower_char :: "char \<Rightarrow> char" where
  "lower_char c = (case map_of upper_lower c of Some d \<Rightarrow> d | None \<Rightarrow> c)"

definition lower :: "string \<Rightarrow> string" where
  "lower s = map lower_char s"

text \<open>\<open>s.startswith(n)\<close>\<close>

fun startswith :: "string \<Rightarrow> string \<Rightarrow> bool" where
  "startswith s [] = True"
| "startswith [] (c # cs) = False"
| "startswith (d # ds) (c # cs) = (d = c \<and> startswith ds cs)"

text \<open>\<open>n in s\<close> for two strings: \<open>n\<close> occurs in \<open>s\<close> as a contiguous substring.\<close>

fun contains :: "string \<Rightarrow> string \<Rightarrow> bool" where
  "contains [] n = (n = [])"
| "contains (c # cs) n = (startswith (c # cs) n \<or> contains cs n)"

text \<open>
  The ASCII characters with \<open>str.isspace\<close>: tab, line feed, vertical tab, form feed,
  carriage return, the four separators 0x1C..0x1F and the space.
\<close>

definition is_space :: "char \<Rightarrow> bool" where
  "is_space c = (c \<in> set [CHR 0x09, CHR 0x0A, CHR 0x0B, CHR 0x0C, CHR 0x0D,
                           CHR 0x1C, CHR 0x1D, CHR 0x1E, CHR 0x1F, CHR 0x20])"

definition strip :: "string \<Rightarrow> string" where
  "strip s = rev (dropWhile is_space (rev (dropWhile is_space s)))"

text \<open>
  The ASCII line boundaries of \<open>str.splitlines\<close>: line feed, carriage return (a carriage
  return followed by a line feed is one boundary), vertical tab, form feed and the
  separators 0x1C..0x1E. A boundary at the very end opens no further line.
\<close>

definition is_linebreak :: "char \<Rightarrow> bool" where
  "is_linebreak c = (c \<in> set [CHR 0x0A, CHR 0x0D, CHR 0x0B, CHR 0x0C, CHR 0x1C, CHR 0x1D, CHR 0x1E])"

fun splitlines_from :: "string \<Rightarrow> string \<Rightarrow> string list" where
  "splitlines_from cur [] = (if cur = [] then [] else [cur])"
| "splitlines_from cur (c # cs) =
     (case cs of
        d # ds \<Rightarrow>
          if c = CHR 0x0D \<and> d = CHR 0x0A then cur # splitlines_from [] ds
          else if is_linebreak c then cur # splitlines_from [] (d # ds)
          else splitlines_from (cur @ [c]) (d # ds)
      | [] \<Rightarrow>
          if is_linebreak c then [cur] else [cur @ [c]])"

definition splitlines :: "string \<Rightarrow> string list" where
  "splitlines s = splitlines_from [] s"

text \<open>\<open>s.split(sep)\<close> for a one-character separator: always at least one field.\<close>

fun split_from :: "char \<Rightarrow> string \<Rightarrow> string \<Rightarrow> string list" where
  "split_from sep cur [] = [cur]"
| "split_from sep cur (c # cs) =
     (if c = sep then cur # split_from sep [] cs else split_from sep (cur @ [c]) cs)"

definition split_on :: "char \<Rightarrow> string \<Rightarrow> string list" where
  "split_on sep s = split_from sep [] s"

section \<open>Player discovery\<close>

text \<open>The preference order of the pollable players.\<close>

definition POLL_PLAYERS :: "string list" where
  "POLL_PLAYERS = [''chromium'', ''chrome'', ''google-chrome'', ''brave'', ''vivaldi'',
                   ''firefox'', ''spotify'']"

text \<open>
  \<open>list_players\<close>, given what \<open>run("playerctl -l")\<close> returned (the stripped standard
  output, empty on any failure). The two list comprehensions are \<open>ordered\<close> (preference
  names in the outer loop, players in the inner one) and \<open>rest\<close>.
\<close>

definition list_players :: "string \<Rightarrow> string list" where
  "list_players out =
     (if out = [] then []
      else
        let players = splitlines out;
            ordered = concat (map (\<lambda>name. filter (\<lambda>p. contains (lower p) name) players)
                                  POLL_PLAYERS);
            rest = filter (\<lambda>p. p \<notin> set ordered) players
        in ordered @ rest)"

section \<open>Numbers\<close>

text \<open>
  A Python \<open>float\<close>: a finite value (idealised as a real number, rounding is not
  modelled), the two infinities, or not-a-number.
\<close>

datatype pyfloat = Finite real | PosInf | NegInf | NaN

text \<open>\<open>x >= 0\<close> on a float.\<close>

fun nonneg :: "pyfloat \<Rightarrow> bool" where
  "nonneg (Finite x) = (0 \<le> x)"
| "nonneg PosInf = True"
| "nonneg NegInf = False"
| "nonneg NaN = False"

text \<open>The exceptions that the program's handlers do not catch.\<close>

datatype error = OverflowError

text \<open>
  \<open>int(s)\<close> for a string, \<open>None\<close> standing for \<open>ValueError\<close>: surrounding whitespace is
  ignored, then an optional sign, then decimal digits, where single underscores may
  separate digits. (The interpreter's limit on the number of digits is not modelled.)
\<close>

definition digit_val :: "char \<Rightarrow> int option" where
  "digit_val c =
     map_of [(CHR ''0'', 0), (CHR ''1'', 1), (CHR ''2'', 2), (CHR ''3'', 3), (CHR ''4'', 4),
             (CHR ''5'', 5), (CHR ''6'', 6), (CHR ''7'', 7), (CHR ''8'', 8), (CHR ''9'', 9)] c"

fun parse_digits :: "int \<Rightarrow> string \<Rightarrow> int option" where
  "parse_digits acc [] = Some acc"
| "parse_digits acc (c # cs) =
     (if c = CHR ''_'' then
        (case cs of
           [] \<Rightarrow> None
         | d # ds \<Rightarrow>
             (case digit_val d of None \<Rightarrow> None | Some v \<Rightarrow> parse_digits (10 * acc + v) ds))
      else
        (case digit_val c of None \<Rightarrow> None | Some v \<Rightarrow> parse_digits (10 * acc + v) cs))"

definition parse_unsigned :: "string \<Rightarrow> int option" where
  "parse_unsigned s =
     (case s of
        [] \<Rightarrow> None
      | c # cs \<Rightarrow> (case digit_val c of None \<Rightarrow> None | Some v \<Rightarrow> parse_digits v cs))"

definition py_int :: "string \<Rightarrow> int option" where
  "py_int s =
     (case strip s of
        [] \<Rightarrow> None
      | c # cs \<Rightarrow>
          if c = CHR ''-'' then map_option uminus (parse_unsigned cs)
          else if c = CHR ''+'' then parse_unsigned cs
          else parse_unsigned (c # cs))"

text \<open>
  \<open>n / 1000000\<close> for an integer \<open>n\<close>: true division gives a float, and raises
  \<open>OverflowError\<close> when the quotient rounds to a magnitude beyond the largest double,
  that is from \<open>2^1024 - 2^970\<close> on.
\<close>

definition micro_to_seconds :: "int \<Rightarrow> error + pyfloat" where
  "micro_to_seconds n =
     (if (2 ^ 1024 - 2 ^ 970) * 1000000 \<le> \<bar>n\<bar> then Inl OverflowError
      else Inr (Finite (real_of_int n / 1000000)))"

section \<open>The environment\<close>

text \<open>
  What the program reads from outside during one poll: the value \<open>run\<close> returns for each
  \<open>playerctl\<close> query (the stripped standard output, empty on any failure), whether a path
  exists on disk, and the float that \<open>float(s)\<close> gives for a string (\<open>None\<close> for
  \<open>ValueError\<close>). A query is a function of the player: asking twice within one poll
  gives the same answer.
\<close>

record world =
  run_list :: string
  run_status :: "string \<Rightarrow> string"
  run_metadata :: "string \<Rightarrow> string"
  run_position :: "string \<Rightarrow> string"
  path_exists :: "string \<Rightarrow> bool"
  py_float :: "string \<Rightarrow> pyfloat option"

section \<open>Player poller\<close>

definition player_status :: "world \<Rightarrow> string \<Rightarrow> string" where
  "player_status w player = run_status w player"

text \<open>
  The dictionary \<open>player_metadata\<close> returns, one field per key: \<open>md_title\<close> is the value
  under \<open>"title"\<close>, and so on.
\<close>

record track_metadata =
  md_title :: string
  md_artist :: string
  md_album :: string
  md_artUrl :: string
  md_player :: string
  md_position :: pyfloat
  md_length :: pyfloat

text \<open>\<open>(raw.split("|") + ["", "", "", "", ""])[:5]\<close>\<close>

definition metadata_fields :: "string \<Rightarrow> string list" where
  "metadata_fields raw = take 5 (split_on CHR ''|'' raw @ [[], [], [], [], []])"

text \<open>
  \<open>player_metadata\<close>: \<open>Inr None\<close> is the empty dictionary, \<open>Inl\<close> an exception that leaves
  the function. Of the two conversions, \<open>float(position_raw)\<close> can only raise
  \<open>ValueError\<close>, which is caught; \<open>int(length) / 1000000\<close> can raise \<open>ValueError\<close> (caught)
  and \<open>OverflowError\<close> (not caught by \<open>except ValueError\<close>).
\<close>

definition player_metadata :: "world \<Rightarrow> string \<Rightarrow> error + track_metadata option" where
  "player_metadata w p =
     (let raw = run_metadata w p in
      if raw = [] \<or> CHR ''|'' \<notin> set raw then Inr None
      else
        let fields = metadata_fields raw;
            position_raw = run_position w p;
            pos = (if position_raw \<noteq> [] then
                     (case py_float w position_raw of None \<Rightarrow> Finite 0 | Some x \<Rightarrow> x)
                   else Finite 0);
            len = (if fields ! 4 \<noteq> [] then
                     (case py_int (fields ! 4) of
                        None \<Rightarrow> Inr (Finite 0)
                      | Some n \<Rightarrow> micro_to_seconds n)
                   else Inr (Finite 0))
        in case len of
             Inl e \<Rightarrow> Inl e
           | Inr l \<Rightarrow>
               Inr (Some \<lparr>md_title = strip (fields ! 0), md_artist = strip (fields ! 1),
                          md_album = strip (fields ! 2), md_artUrl = strip (fields ! 3),
                          md_player = p, md_position = pos, md_length = l\<rparr>))"

section \<open>Catalog responses\<close>

text \<open>
  What \<open>r.json()\<close> can give: any JSON value. An object is the list of its items, one per
  key (the parsed dictionary has no key twice). JSON \<open>null\<close> is Python's \<open>None\<close>.
\<close>

datatype json =
    JNull
  | JBool bool
  | JNum real
  | JStr string
  | JArr "json list"
  | JObj "(string \<times> json) list"

text \<open>The truth value of a Python object in \<open>if x\<close>, \<open>x and y\<close>, \<open>x or y\<close>.\<close>

fun truthy :: "json \<Rightarrow> bool" where
  "truthy JNull = False"
| "truthy (JBool b) = b"
| "truthy (JNum x) = (x \<noteq> 0)"
| "truthy (JStr s) = (s \<noteq> [])"
| "truthy (JArr xs) = (xs \<noteq> [])"
| "truthy (JObj kvs) = (kvs \<noteq> [])"

text \<open>
  \<open>k in x\<close> for a string \<open>k\<close>: key membership in a dictionary, element membership in a
  list, substring test in a string, \<open>TypeError\<close> (here \<open>None\<close>) on anything else.
\<close>

fun py_in :: "string \<Rightarrow> json \<Rightarrow> bool option" where
  "py_in k (JObj kvs) = Some (k \<in> set (map fst kvs))"
| "py_in k (JArr xs) = Some (JStr k \<in> set xs)"
| "py_in k (JStr s) = Some (contains s k)"
| "py_in k JNull = None"
| "py_in k (JBool b) = None"
| "py_in k (JNum x) = None"

text \<open>
  \<open>x[k]\<close> for a string \<open>k\<close>: the value in a dictionary (\<open>KeyError\<close> without the key),
  \<open>TypeError\<close> on anything else; \<open>None\<close> stands for both.
\<close>

fun py_item :: "json \<Rightarrow> string \<Rightarrow> json option" where
  "py_item (JObj kvs) k = map_of kvs k"
| "py_item JNull k = None"
| "py_item (JBool b) k = None"
| "py_item (JNum x) k = None"
| "py_item (JStr s) k = None"
| "py_item (JArr xs) k = None"

text \<open>
  \<open>x.get(k)\<close>: on a dictionary the value, or Python's \<open>None\<close> without the key; anything
  else has no \<open>get\<close> and raises \<open>AttributeError\<close> (here \<open>None\<close>).
\<close>

fun py_get :: "json \<Rightarrow> string \<Rightarrow> json option" where
  "py_get (JObj kvs) k = Some (case map_of kvs k of None \<Rightarrow> JNull | Some v \<Rightarrow> v)"
| "py_get JNull k = None"
| "py_get (JBool b) k = None"
| "py_get (JNum x) k = None"
| "py_get (JStr s) k = None"
| "py_get (JArr xs) k = None"

text \<open>
  \<open>for img in images\<close>: the elements of a list, the keys of a dictionary, the characters
  of a string; \<open>TypeError\<close> (here \<open>None\<close>) on anything else.
\<close>

fun py_iter :: "json \<Rightarrow> json list option" where
  "py_iter (JArr xs) = Some xs"
| "py_iter (JObj kvs) = Some (map (\<lambda>kv. JStr (fst kv)) kvs)"
| "py_iter (JStr s) = Some (map (\<lambda>c. JStr [c]) s)"
| "py_iter JNull = None"
| "py_iter (JBool b) = None"
| "py_iter (JNum x) = None"

section \<open>Cover resolver: the underlying lookup\<close>

text \<open>How a loop over the images ends: by an exception, by \<open>return\<close>, or by running out.\<close>

datatype scan = Raises | Returns json | Finishes

text \<open>The inner loop \<open>for img in images\<close> for one size name.\<close>

fun scan_size :: "string \<Rightarrow> json list \<Rightarrow> scan" where
  "scan_size size_name [] = Finishes"
| "scan_size size_name (img # imgs) =
     (case py_get img ''size'' of
        None \<Rightarrow> Raises
      | Some sz \<Rightarrow>
          if sz = JStr size_name then
            (case py_get img ''#text'' of
               None \<Rightarrow> Raises
             | Some t \<Rightarrow> if truthy t then Returns t else scan_size size_name imgs)
          else scan_size size_name imgs)"

text \<open>The outer loop \<open>for size in [...]\<close>.\<close>

fun scan_sizes :: "string list \<Rightarrow> json list \<Rightarrow> scan" where
  "scan_sizes [] imgs = Finishes"
| "scan_sizes (size_name # rest) imgs =
     (case scan_size size_name imgs of
        Finishes \<Rightarrow> scan_sizes rest imgs
      | Raises \<Rightarrow> Raises
      | Returns v \<Rightarrow> Returns v)"

text \<open>The fallback loop: the first image with a URL.\<close>

fun scan_any :: "json list \<Rightarrow> scan" where
  "scan_any [] = Finishes"
| "scan_any (img # imgs) =
     (case py_get img ''#text'' of
        None \<Rightarrow> Raises
      | Some t \<Rightarrow> if truthy t then Returns t else scan_any imgs)"

definition SIZES :: "string list" where
  "SIZES = [''extralarge'', ''mega'', ''large'', ''medium'']"

text \<open>
  The block that sets \<open>images\<close>: the outer \<open>None\<close> is an exception, \<open>Some None\<close> leaves
  \<open>images = None\<close>.
\<close>

definition find_images :: "json \<Rightarrow> json option option" where
  "find_images data =
     Option.bind (py_in ''track'' data) (\<lambda>has_track.
       if \<not> has_track then Some None
       else
         Option.bind (py_item data ''track'') (\<lambda>tr.
         Option.bind (py_in ''album'' tr) (\<lambda>has_album.
         Option.bind (if has_album then Option.bind (py_item tr ''album'') (py_in ''image'')
                      else Some False) (\<lambda>album_image.
           if album_image then
             Option.bind (py_item tr ''album'') (\<lambda>al. map_option Some (py_item al ''image''))
           else
             Option.bind (py_in ''image'' tr) (\<lambda>has_image.
               if has_image then map_option Some (py_item tr ''image'') else Some None)))))"

text \<open>
  The rest of the \<open>try\<close> block once \<open>data\<close> is there, together with the handler: the
  value \<open>_lastfm_cover\<close> returns, \<open>None\<close> being Python's \<open>None\<close>.
\<close>

definition select_image :: "json \<Rightarrow> json option" where
  "select_image data =
     (case find_images data of
        None \<Rightarrow> None
      | Some None \<Rightarrow> None
      | Some (Some images) \<Rightarrow>
          if truthy images then
            (case py_iter images of
               None \<Rightarrow> None
             | Some imgs \<Rightarrow>
                 (case scan_sizes SIZES imgs of
                    Raises \<Rightarrow> None
                  | Returns v \<Rightarrow> Some v
                  | Finishes \<Rightarrow>
                      (case scan_any imgs of
                         Raises \<Rightarrow> None
                       | Returns v \<Rightarrow> Some v
                       | Finishes \<Rightarrow> None)))
          else None)"

text \<open>
  The process-wide state of the cover resolver: the dictionary \<open>_last_cover_ttl\<close> and the
  table of \<open>lru_cache\<close> (most recently used entry first). Two more fields record what
  happened, for the properties that count calls: the arguments of every call of
  \<open>_lastfm_cover\<close> and of every HTTP request, latest first.
\<close>

record cover_state =
  last_cover_ttl :: "string \<Rightarrow> real option"
  cache :: "((string \<times> string) \<times> json option) list"
  lookups :: "(string \<times> string) list"
  requests :: "(string \<times> string) list"

definition initial_state :: cover_state where
  "initial_state = \<lparr>last_cover_ttl = Map.empty, cache = [], lookups = [], requests = []\<rparr>"

text \<open>
  \<open>_lastfm_cover\<close>. \<open>LASTFM_API_KEY\<close> is the parameter \<open>api_key\<close>; \<open>fetch artist track\<close> is
  what \<open>requests.get(...)\<close> followed by \<open>r.json()\<close> gives at the time of the call, \<open>None\<close>
  when either raises.
\<close>

definition lastfm_cover_impl ::
  "string \<Rightarrow> (string \<Rightarrow> string \<Rightarrow> json option) \<Rightarrow> string \<Rightarrow> string \<Rightarrow> cover_state
     \<Rightarrow> json option \<times> cover_state" where
  "lastfm_cover_impl api_key fetch artist track s =
     (if api_key = [] then (None, s)
      else
        let s' = s\<lparr>requests := (artist, track) # requests s\<rparr>
        in case fetch artist track of
             None \<Rightarrow> (None, s')
           | Some data \<Rightarrow> (select_image data, s'))"

section \<open>Cover resolver: the two cache layers\<close>

definition MAXSIZE :: nat where
  "MAXSIZE = 256"

text \<open>
  \<open>_lastfm_cover_cached\<close>: \<open>lru_cache(maxsize=256)\<close> around \<open>_lastfm_cover\<close>. A hit moves
  the entry to the front; a miss calls the function and stores the result, dropping the
  least recently used entry when the table is full.
\<close>

definition lastfm_cover_cached ::
  "string \<Rightarrow> (string \<Rightarrow> string \<Rightarrow> json option) \<Rightarrow> string \<Rightarrow> string \<Rightarrow> cover_state
     \<Rightarrow> json option \<times> cover_state" where
  "lastfm_cover_cached api_key fetch artist track s =
     (case map_of (cache s) (artist, track) of
        Some v \<Rightarrow>
          (v, s\<lparr>cache := ((artist, track), v) # filter (\<lambda>e. fst e \<noteq> (artist, track)) (cache s)\<rparr>)
      | None \<Rightarrow>
          let (v, s') = lastfm_cover_impl api_key fetch artist track
                          (s\<lparr>lookups := (artist, track) # lookups s\<rparr>);
              c = cache s'
          in (v, s'\<lparr>cache := ((artist, track), v) # (if MAXSIZE \<le> length c then butlast c else c)\<rparr>))"

definition cover_key :: "string \<Rightarrow> string \<Rightarrow> string" where
  "cover_key artist track = lower artist @ ''|'' @ lower track"

text \<open>The expiry \<open>_last_cover_ttl.get(key, 0)\<close>.\<close>

definition expiry :: "cover_state \<Rightarrow> string \<Rightarrow> real" where
  "expiry s key = (case last_cover_ttl s key of None \<Rightarrow> 0 | Some e \<Rightarrow> e)"

text \<open>\<open>lastfm_cover\<close>; \<open>now\<close> is what \<open>time()\<close> returns in this call.\<close>

definition lastfm_cover ::
  "string \<Rightarrow> (string \<Rightarrow> string \<Rightarrow> json option) \<Rightarrow> real \<Rightarrow> string \<Rightarrow> string \<Rightarrow> cover_state
     \<Rightarrow> json option \<times> cover_state" where
  "lastfm_cover api_key fetch now artist track s =
     (let key = cover_key artist track;
          exp = expiry s key;
          s1 = (if now > exp then
                  s\<lparr>cache := [], last_cover_ttl := (last_cover_ttl s)(key \<mapsto> now + 60 * 60)\<rparr>
                else s)
      in lastfm_cover_cached api_key fetch artist track s1)"

text \<open>A series of calls of \<open>lastfm_cover\<close>, each with its own clock reading and network.\<close>

type_synonym cover_call = "(string \<Rightarrow> string \<Rightarrow> json option) \<times> real \<times> string \<times> string"

fun lastfm_cover_calls ::
  "string \<Rightarrow> cover_call list \<Rightarrow> cover_state \<Rightarrow> json option list \<times> cover_state" where
  "lastfm_cover_calls api_key [] s = ([], s)"
| "lastfm_cover_calls api_key ((fetch, now, artist, track) # calls) s =
     (let (r, s') = lastfm_cover api_key fetch now artist track s;
          (rs, s'') = lastfm_cover_calls api_key calls s'
      in (r # rs, s''))"

text \<open>
  No call of the series finds its key stale, each taken at the state the calls before it
  leave: none of them clears the cache.
\<close>

fun no_clear :: "string \<Rightarrow> cover_call list \<Rightarrow> cover_state \<Rightarrow> bool" where
  "no_clear api_key [] s = True"
| "no_clear api_key ((fetch, now, artist, track) # calls) s =
     (\<not> expiry s (cover_key artist track) < now \<and>
      no_clear api_key calls (snd (lastfm_cover api_key fetch now artist track s)))"

section \<open>Now-playing resolver\<close>

datatype now_playing =
    Stopped
  | Playing (np_title: string) (np_artist: string) (np_album: string) (np_cover: json)
      (np_source: string) (np_position: pyfloat) (np_length: pyfloat)

text \<open>\<open>lastfm_cover(artist, title) or ""\<close>\<close>

definition or_empty :: "json option \<Rightarrow> json" where
  "or_empty r = (case r of None \<Rightarrow> JStr [] | Some v \<Rightarrow> if truthy v then v else JStr [])"

text \<open>The cover policy of \<open>get_now_playing\<close>: the \<open>if\<close> / \<open>elif\<close> on \<open>cover\<close>.\<close>

definition resolve_cover ::
  "world \<Rightarrow> string \<Rightarrow> (string \<Rightarrow> string \<Rightarrow> json option) \<Rightarrow> real
     \<Rightarrow> string \<Rightarrow> string \<Rightarrow> string \<Rightarrow> cover_state \<Rightarrow> json \<times> cover_state" where
  "resolve_cover w api_key fetch now title artist cover s =
     (if cover = [] \<and> title \<noteq> [] \<and> artist \<noteq> [] then
        (let (r, s') = lastfm_cover api_key fetch now artist title s in (or_empty r, s'))
      else if cover \<noteq> [] \<and> startswith cover ''file://'' then
        (let file_path = drop 7 cover
         in if \<not> path_exists w file_path \<and> title \<noteq> [] \<and> artist \<noteq> [] then
              (let (r, s') = lastfm_cover api_key fetch now artist title s in (or_empty r, s'))
            else (JStr cover, s))
      else (JStr cover, s))"

text \<open>The loop \<open>for p in players\<close> of \<open>get_now_playing\<close>, with the final \<open>return\<close>.\<close>

fun poll ::
  "world \<Rightarrow> string \<Rightarrow> (string \<Rightarrow> string \<Rightarrow> json option) \<Rightarrow> real \<Rightarrow> string list \<Rightarrow> cover_state
     \<Rightarrow> (error + now_playing) \<times> cover_state" where
  "poll w api_key fetch now [] s = (Inr Stopped, s)"
| "poll w api_key fetch now (p # ps) s =
     (if lower (player_status w p) = ''playing'' then
        (case player_metadata w p of
           Inl e \<Rightarrow> (Inl e, s)
         | Inr None \<Rightarrow> poll w api_key fetch now ps s
         | Inr (Some meta) \<Rightarrow>
             let (cover, s') = resolve_cover w api_key fetch now (md_title meta) (md_artist meta)
                                 (md_artUrl meta) s
             in (Inr (Playing (md_title meta) (md_artist meta) (md_album meta) cover
                        (if md_player meta \<noteq> [] then md_player meta else p)
                        (md_position meta) (md_length meta)), s'))
      else poll w api_key fetch now ps s)"

definition get_now_playing ::
  "world \<Rightarrow> string \<Rightarrow> (string \<Rightarrow> string \<Rightarrow> json option) \<Rightarrow> real \<Rightarrow> cover_state
     \<Rightarrow> (error + now_playing) \<times> cover_state" where
  "get_now_playing w api_key fetch now s = poll w api_key fetch now (list_players (run_list w)) s"

section \<open>Example inputs\<close>

text \<open>A world in which every query returns nothing.\<close>

definition quiet_world :: world where
  "quiet_world = \<lparr>run_list = [], run_status = (\<lambda>_. []), run_metadata = (\<lambda>_. []),
     run_position = (\<lambda>_. []), path_exists = (\<lambda>_. False), py_float = (\<lambda>_. None)\<rparr>"

text \<open>A metadata line whose length field is 330 nines.\<close>

definition huge_length_raw :: string where
  "huge_length_raw = ''t|a|b|c|'' @ replicate 330 CHR ''9''"

text \<open>A player that reports a length of minus one second.\<close>

definition negative_length_world :: world where
  "negative_length_world = quiet_world\<lparr>run_metadata := (\<lambda>_. ''t|a|b|c|-1000000'')\<rparr>"

text \<open>A player five seconds long, one and a half seconds in.\<close>

definition five_seconds_world :: world where
  "five_seconds_world = quiet_world\<lparr>run_metadata := (\<lambda>_. ''Song | Band |  | |5000000''),
      run_position := (\<lambda>_. ''1.5''),
      py_float := (\<lambda>s. if s = ''1.5'' then Some (Finite (3 / 2)) else None)\<rparr>"

text \<open>A network on which every request fails.\<close>

definition no_network :: "string \<Rightarrow> string \<Rightarrow> json option" where
  "no_network artist track = None"

text \<open>A catalog response with one large album image, and a network that always sends it.\<close>

definition cover_response :: "string \<Rightarrow> json" where
  "cover_response url =
     JObj [(''track'', JObj [(''name'', JStr ''x''),
        (''album'', JObj [(''image'', JArr [JObj [(''#text'', JStr url), (''size'', JStr ''large'')]])])])]"

definition network_with :: "string \<Rightarrow> string \<Rightarrow> string \<Rightarrow> json option" where
  "network_with url artist track = Some (cover_response url)"

text \<open>The state of the resolver after one lookup of a pair at time 100 without credential.\<close>

definition abba_state :: cover_state where
  "abba_state = \<lparr>last_cover_ttl = [''abba|sos'' \<mapsto> 3700], cache = [((''Abba'', ''Sos''), None)],
                  lookups = [(''Abba'', ''Sos'')], requests = []\<rparr>"

section \<open>Well-formed catalog responses\<close>

text \<open>
  An image entry as the catalog sends it, \<open>{"size": name, "#text": url}\<close>, given by the
  pair of its size name and its URL, and a list of such entries.
\<close>

definition image_entry :: "string \<times> string \<Rightarrow> json" where
  "image_entry e = JObj [(''size'', JStr (fst e)), (''#text'', JStr (snd e))]"

definition image_list :: "(string \<times> string) list \<Rightarrow> json" where
  "image_list es = JArr (map image_entry es)"

text \<open>
  The selection in the words of the specification: the first of the four size names for
  which some entry of that size has a non-empty URL decides, and the first such entry
  gives the URL; without any such size, the first entry with a non-empty URL does.
\<close>

definition preferred_url :: "(string \<times> string) list \<Rightarrow> string option" where
  "preferred_url es =
     (case List.find (\<lambda>name. \<exists>e \<in> set es. fst e = name \<and> snd e \<noteq> []) SIZES of
        Some name \<Rightarrow> map_option snd (List.find (\<lambda>e. fst e = name \<and> snd e \<noteq> []) es)
      | None \<Rightarrow> map_option snd (List.find (\<lambda>e. snd e \<noteq> []) es))"

text \<open>The response of the specification's scenario: a small and a large album image.\<close>

definition small_large_images :: "(string \<times> string) list" where
  "small_large_images = [(''small'', ''s.jpg''), (''large'', ''l.jpg'')]"

definition small_large_album :: "(string \<times> json) list" where
  "small_large_album = [(''title'', JStr ''y''), (''image'', image_list small_large_images)]"

definition small_large_track :: "(string \<times> json) list" where
  "small_large_track = [(''name'', JStr ''x''), (''album'', JObj small_large_album)]"

definition small_large_body :: "(string \<times> json) list" where
  "small_large_body = [(''track'', JObj small_large_track)]"

text \<open>A playing player whose metadata line carries the 330-digit length.\<close>

definition overflow_world :: world where
  "overflow_world = quiet_world\<lparr>run_list := ''spotify'', run_status := (\<lambda>_. ''Playing''),
      run_metadata := (\<lambda>_. huge_length_raw)\<rparr>"

text \<open>
  The specification's scenario: two players, the second one playing a track with title
  \<open>A\<close> and artist \<open>B\<close>, no album, no cover reference and no length.
\<close>

definition scenario_world :: world where
  "scenario_world = quiet_world\<lparr>
      run_list := ''firefox.instance1'' @ [CHR 0x0A] @ ''spotify.instance2'',
      run_status := (\<lambda>p. if p = ''spotify.instance2'' then ''Playing'' else ''Paused''),
      run_metadata := (\<lambda>p. ''A|B|||'')\<rparr>"

text \<open>
  The scenario of the dead local reference: the playing track names a cover file that
  is not on disk.
\<close>

definition missing_file_world :: world where
  "missing_file_world = quiet_world\<lparr>
      run_list := ''spotify.instance2'',
      run_status := (\<lambda>p. ''Playing''),
      run_metadata := (\<lambda>p. ''A|B||file:///tmp/missing.jpg|'')\<rparr>"

section \<open>Properties of player discovery\<close>

lemma lower_simps [simp]:
  "lower [] = []"
  "lower (c # cs) = lower_char c # lower cs"
  by (simp_all add: lower_def)

lemma splitlines_one_player:
  "splitlines ''google-chrome.instance7'' = [''google-chrome.instance7'']"
  by code_simp

lemma list_players_one_player:
  "list_players ''google-chrome.instance7'' =
     [''google-chrome.instance7'', ''google-chrome.instance7'']"
  by code_simp

text \<open>
  C2. The claim: the output of \<open>list_players\<close> is a permutation of the players listed.
  The code repeats a player once for every preference name its identifier contains:
  every identifier containing \<open>google-chrome\<close> also contains \<open>chrome\<close>, so such a player
  is emitted twice. For the single listed player \<open>google-chrome.instance7\<close> the output
  has two elements and is no permutation of the input.
\<close>

theorem list_players_duplicates_player:
  "splitlines ''google-chrome.instance7'' = [''google-chrome.instance7''] \<and>
   list_players ''google-chrome.instance7'' =
     [''google-chrome.instance7'', ''google-chrome.instance7''] \<and>
   mset (list_players ''google-chrome.instance7'') \<noteq> mset (splitlines ''google-chrome.instance7'')"
  by (simp add: splitlines_one_player list_players_one_player)

text \<open>
  What does hold of the output: no player is dropped and none is invented, whatever the
  players are called.
\<close>

lemma set_list_players: "set (list_players out) = set (splitlines out)"
  by (auto simp add: list_players_def Let_def splitlines_def)

lemma mset_filter_disjoint:
  assumes "\<forall>x \<in> set xs. \<not> (P x \<and> Q x)"
  shows "mset (filter P xs) + mset (filter Q xs) = mset (filter (\<lambda>x. P x \<or> Q x) xs)"
  using assms by (induction xs) auto

lemma mset_ordered:
  assumes "distinct names"
    and "\<forall>p \<in> set ps. \<forall>n \<in> set names. \<forall>m \<in> set names.
           contains (lower p) n \<and> contains (lower p) m \<longrightarrow> n = m"
  shows "mset (concat (map (\<lambda>name. filter (\<lambda>p. contains (lower p) name) ps) names)) =
         mset (filter (\<lambda>p. \<exists>name \<in> set names. contains (lower p) name) ps)"
  using assms
proof (induction names)
  case Nil
  show ?case by simp
next
  case (Cons n names)
  have disjoint: "\<forall>p \<in> set ps. \<not> (contains (lower p) n \<and>
      (\<exists>name \<in> set names. contains (lower p) name))"
    using Cons.prems by auto
  have "mset (concat (map (\<lambda>name. filter (\<lambda>p. contains (lower p) name) ps) (n # names))) =
        mset (filter (\<lambda>p. contains (lower p) n) ps) +
        mset (filter (\<lambda>p. \<exists>name \<in> set names. contains (lower p) name) ps)"
    using Cons by simp
  also have "\<dots> = mset (filter (\<lambda>p. contains (lower p) n \<or>
      (\<exists>name \<in> set names. contains (lower p) name)) ps)"
    by (rule mset_filter_disjoint [OF disjoint])
  also have "\<dots> = mset (filter (\<lambda>p. \<exists>name \<in> set (n # names). contains (lower p) name) ps)"
    by simp
  finally show ?case .
qed

text \<open>
  When no listed player contains two of the preference names, the output is a
  permutation of the players listed.
\<close>

lemma mset_list_players:
  assumes "\<forall>p \<in> set (splitlines out). \<forall>n \<in> set POLL_PLAYERS. \<forall>m \<in> set POLL_PLAYERS.
             contains (lower p) n \<and> contains (lower p) m \<longrightarrow> n = m"
  shows "mset (list_players out) = mset (splitlines out)"
proof (cases "out = []")
  case True
  then show ?thesis by (simp add: list_players_def splitlines_def)
next
  case False
  let ?ps = "splitlines out"
  let ?matched = "\<lambda>p. \<exists>name \<in> set POLL_PLAYERS. contains (lower p) name"
  let ?ordered = "concat (map (\<lambda>name. filter (\<lambda>p. contains (lower p) name) ?ps) POLL_PLAYERS)"
  have distinct: "distinct POLL_PLAYERS" by (simp add: POLL_PLAYERS_def)
  have ordered: "mset ?ordered = mset (filter ?matched ?ps)"
    by (rule mset_ordered [OF distinct assms])
  have "filter (\<lambda>p. p \<notin> set ?ordered) ?ps = filter (\<lambda>p. \<not> ?matched p) ?ps"
    by (rule filter_cong) auto
  then have "mset (list_players out) =
      mset (filter ?matched ?ps) + mset (filter (\<lambda>p. \<not> ?matched p) ?ps)"
    using False ordered by (simp add: list_players_def Let_def)
  then show ?thesis by simp
qed

section \<open>Properties of the player poller\<close>

lemma player_metadata_absent:
  "run_metadata w p = [] \<or> CHR ''|'' \<notin> set (run_metadata w p) \<Longrightarrow> player_metadata w p = Inr None"
  by (auto simp add: player_metadata_def)

lemma length_metadata_fields: "length (metadata_fields raw) = 5"
  by (simp add: metadata_fields_def)

lemma py_int_empty: "py_int [] = None"
  by (simp add: py_int_def strip_def)

text \<open>
  Without an overflow the dictionary has the five fields, trimmed, and the length in
  seconds; a length field that is no integer literal gives 0.
\<close>

lemma player_metadata_present:
  assumes "run_metadata w p \<noteq> []" and "CHR ''|'' \<in> set (run_metadata w p)"
    and "\<forall>n. py_int (metadata_fields (run_metadata w p) ! 4) = Some n \<longrightarrow>
           \<bar>n\<bar> < (2 ^ 1024 - 2 ^ 970) * 1000000"
  shows "player_metadata w p =
     Inr (Some \<lparr>md_title = strip (metadata_fields (run_metadata w p) ! 0),
                md_artist = strip (metadata_fields (run_metadata w p) ! 1),
                md_album = strip (metadata_fields (run_metadata w p) ! 2),
                md_artUrl = strip (metadata_fields (run_metadata w p) ! 3),
                md_player = p,
                md_position =
                  (if run_position w p \<noteq> [] then
                     (case py_float w (run_position w p) of None \<Rightarrow> Finite 0 | Some x \<Rightarrow> x)
                   else Finite 0),
                md_length =
                  (case py_int (metadata_fields (run_metadata w p) ! 4) of
                     None \<Rightarrow> Finite 0
                   | Some n \<Rightarrow> Finite (real_of_int n / 1000000))\<rparr>)"
  using assms
  by (auto simp add: player_metadata_def Let_def py_int_empty micro_to_seconds_def
      split: option.splits)

lemma huge_length_raw_delimited: "huge_length_raw \<noteq> [] \<and> CHR ''|'' \<in> set huge_length_raw"
  by code_simp

lemma huge_length_raw_field: "metadata_fields huge_length_raw ! 4 \<noteq> []"
  by code_simp

lemma huge_length_raw_seconds:
  "(case py_int (metadata_fields huge_length_raw ! 4) of
      None \<Rightarrow> Inr (Finite 0)
    | Some n \<Rightarrow> micro_to_seconds n) = Inl OverflowError"
  by code_simp

text \<open>
  C7. The claim: for every raw string \<open>player_metadata\<close> returns the empty result or the
  five parsed fields, and never raises. On a line whose fifth field is an integer beyond
  the range of a float (here 330 nines) \<open>int(length) / 1000000\<close> raises \<open>OverflowError\<close>,
  which \<open>except ValueError\<close> does not catch: the exception leaves \<open>player_metadata\<close>.
\<close>

theorem player_metadata_overflow:
  "player_metadata (w\<lparr>run_metadata := (\<lambda>_. huge_length_raw)\<rparr>) p = Inl OverflowError"
  by (simp add: player_metadata_def Let_def huge_length_raw_delimited huge_length_raw_field
      huge_length_raw_seconds)

lemma micro_to_seconds_nonneg: "micro_to_seconds n = Inr l \<Longrightarrow> nonneg l = (0 \<le> n)"
  by (auto simp add: micro_to_seconds_def split: if_splits)

lemma negative_length_metadata:
  "player_metadata negative_length_world ''vlc'' =
     Inr (Some \<lparr>md_title = ''t'', md_artist = ''a'', md_album = ''b'', md_artUrl = ''c'',
                md_player = ''vlc'', md_position = Finite 0, md_length = Finite (- 1)\<rparr>)"
  by code_simp

lemma five_seconds_metadata:
  "player_metadata five_seconds_world ''vlc'' =
     Inr (Some \<lparr>md_title = ''Song'', md_artist = ''Band'', md_album = [], md_artUrl = [],
                md_player = ''vlc'', md_position = Finite (3 / 2), md_length = Finite 5\<rparr>)"
  by code_simp

text \<open>
  C9, as stated: the position and the length in the returned metadata are non-negative.
  A player reporting the length \<open>-1000000\<close> gets the length \<open>-1\<close>: nothing clamps it.
\<close>

theorem player_metadata_negative_length:
  "(case player_metadata negative_length_world ''vlc'' of
      Inr (Some m) \<Rightarrow> \<not> nonneg (md_length m)
    | _ \<Rightarrow> False)"
  by (simp add: negative_length_metadata)

text \<open>
  C9, amended: in the metadata \<open>player_metadata\<close> returns, the length is non-negative
  exactly when the length field is no integer literal (then it is 0) or a non-negative
  one, and the position is non-negative exactly when the position output is empty or no
  float literal (then it is 0) or parses to a non-negative float. Negative values
  reported by the player are passed on unchanged.
\<close>

theorem player_metadata_nonneg_iff:
  assumes "player_metadata w p = Inr (Some m)"
  shows "nonneg (md_length m) =
           (\<forall>n. py_int (metadata_fields (run_metadata w p) ! 4) = Some n \<longrightarrow> 0 \<le> n) \<and>
         nonneg (md_position m) =
           (run_position w p = [] \<or>
            (case py_float w (run_position w p) of None \<Rightarrow> True | Some x \<Rightarrow> nonneg x))"
  using assms
  by (auto simp add: player_metadata_def Let_def py_int_empty micro_to_seconds_nonneg
      split: if_splits option.splits sum.splits)

lemma five_seconds_fields:
  "py_int (metadata_fields (run_metadata five_seconds_world ''vlc'') ! 4) = Some 5000000 \<and>
   run_position five_seconds_world ''vlc'' = ''1.5'' \<and>
   py_float five_seconds_world ''1.5'' = Some (Finite (3 / 2))"
  by code_simp

theorem player_metadata_nonneg_iff_witness:
  "player_metadata five_seconds_world ''vlc'' =
     Inr (Some \<lparr>md_title = ''Song'', md_artist = ''Band'', md_album = [], md_artUrl = [],
                md_player = ''vlc'', md_position = Finite (3 / 2), md_length = Finite 5\<rparr>) \<and>
   nonneg (Finite 5) \<and> nonneg (Finite (3 / 2)) \<and>
   py_int (metadata_fields (run_metadata five_seconds_world ''vlc'') ! 4) = Some 5000000"
  using player_metadata_nonneg_iff [OF five_seconds_metadata]
  by (simp add: five_seconds_metadata five_seconds_fields)

section \<open>Properties of the cover resolver's cache\<close>

lemma lastfm_cover_impl_no_key: "lastfm_cover_impl [] fetch artist track s = (None, s)"
  by (simp add: lastfm_cover_impl_def)

lemma lastfm_cover_impl_keeps:
  assumes "lastfm_cover_impl api_key fetch artist track s = (r, s')"
  shows "cache s' = cache s" and "last_cover_ttl s' = last_cover_ttl s"
    and "lookups s' = lookups s"
    and "requests s' = (if api_key = [] then requests s else (artist, track) # requests s)"
  using assms
  by (auto simp add: lastfm_cover_impl_def Let_def split: if_splits option.splits)

lemma lastfm_cover_cached_hit:
  assumes "map_of (cache s) (artist, track) = Some v"
  shows "lastfm_cover_cached api_key fetch artist track s =
           (v, s\<lparr>cache := ((artist, track), v) #
                             filter (\<lambda>e. fst e \<noteq> (artist, track)) (cache s)\<rparr>)"
  using assms by (simp add: lastfm_cover_cached_def)

lemma lastfm_cover_cached_miss:
  assumes "map_of (cache s) (artist, track) = None"
    and "lastfm_cover_cached api_key fetch artist track s = (r, s')"
  shows "lookups s' = (artist, track) # lookups s"
    and "cache s' = ((artist, track), r) #
                      (if MAXSIZE \<le> length (cache s) then butlast (cache s) else cache s)"
    and "last_cover_ttl s' = last_cover_ttl s"
    and "requests s' = (if api_key = [] then requests s else (artist, track) # requests s)"
    and "r = fst (lastfm_cover_impl api_key fetch artist track s)"
proof -
  obtain v s1 where impl:
    "lastfm_cover_impl api_key fetch artist track (s\<lparr>lookups := (artist, track) # lookups s\<rparr>)
       = (v, s1)"
    by (cases "lastfm_cover_impl api_key fetch artist track
                 (s\<lparr>lookups := (artist, track) # lookups s\<rparr>)") auto
  note keeps = lastfm_cover_impl_keeps [OF impl]
  from assms impl have r: "r = v"
    and s': "s' = s1\<lparr>cache := ((artist, track), v) #
                       (if MAXSIZE \<le> length (cache s1) then butlast (cache s1) else cache s1)\<rparr>"
    by (auto simp add: lastfm_cover_cached_def Let_def)
  show "lookups s' = (artist, track) # lookups s" using s' keeps by simp
  show "cache s' = ((artist, track), r) #
                      (if MAXSIZE \<le> length (cache s) then butlast (cache s) else cache s)"
    using s' r keeps by simp
  show "last_cover_ttl s' = last_cover_ttl s" using s' keeps by simp
  show "requests s' = (if api_key = [] then requests s else (artist, track) # requests s)"
    using s' keeps by simp
  show "r = fst (lastfm_cover_impl api_key fetch artist track s)"
    using r impl by (auto simp add: lastfm_cover_impl_def Let_def split: if_splits option.splits)
qed

text \<open>What \<open>lastfm_cover\<close> does before it enters the memoizing layer.\<close>

lemma lastfm_cover_stale:
  assumes "expiry s (cover_key artist track) < now"
  shows "lastfm_cover api_key fetch now artist track s =
           lastfm_cover_cached api_key fetch artist track
             (s\<lparr>cache := [],
                last_cover_ttl := (last_cover_ttl s)(cover_key artist track \<mapsto> now + 60 * 60)\<rparr>)"
  using assms by (simp add: lastfm_cover_def Let_def)

lemma lastfm_cover_fresh:
  assumes "\<not> expiry s (cover_key artist track) < now"
  shows "lastfm_cover api_key fetch now artist track s =
           lastfm_cover_cached api_key fetch artist track s"
  using assms by (simp add: lastfm_cover_def Let_def)

text \<open>
  C3, as stated: when the key's expiry has not passed, the memoized result is returned
  without invoking the underlying lookup. After a lookup for one pair at time 10 and for
  another pair at time 20 (a new key, so everything memoized is dropped), the first pair
  is looked up again at time 30: its expiry 3610 has not passed, no clear occurs, and the
  underlying lookup and the HTTP request are made once more.
\<close>

theorem lastfm_cover_fresh_key_lookup:
  "(let s1 = snd (lastfm_cover ''key'' no_network 10 ''Abba'' ''Sos'' initial_state);
        s2 = snd (lastfm_cover ''key'' no_network 20 ''Queen'' ''Flash'' s1);
        s3 = snd (lastfm_cover ''key'' no_network 30 ''Abba'' ''Sos'' s2)
    in expiry s2 (cover_key ''Abba'' ''Sos'') = 3610 \<and>
       \<not> expiry s2 (cover_key ''Abba'' ''Sos'') < 30 \<and>
       lookups s3 = (''Abba'', ''Sos'') # lookups s2 \<and>
       requests s3 = (''Abba'', ''Sos'') # requests s2)"
  by code_simp

lemma lastfm_cover_impl_result:
  "fst (lastfm_cover_impl api_key fetch artist track s) =
     (if api_key = [] then None
      else case fetch artist track of None \<Rightarrow> None | Some data \<Rightarrow> select_image data)"
  by (simp add: lastfm_cover_impl_def Let_def split: option.splits)

lemma lastfm_cover_stale_call:
  assumes stale: "expiry s (cover_key artist track) < now"
    and call: "lastfm_cover api_key fetch now artist track s = (r, s')"
  shows "cache s' = [((artist, track), r)]"
    and "last_cover_ttl s' = (last_cover_ttl s)(cover_key artist track \<mapsto> now + 3600)"
    and "lookups s' = (artist, track) # lookups s"
    and "requests s' = (if api_key = [] then requests s else (artist, track) # requests s)"
    and "r = fst (lastfm_cover_impl api_key fetch artist track s)"
proof -
  let ?s1 = "s\<lparr>cache := [],
      last_cover_ttl := (last_cover_ttl s)(cover_key artist track \<mapsto> now + 60 * 60)\<rparr>"
  have cached: "lastfm_cover_cached api_key fetch artist track ?s1 = (r, s')"
    using call lastfm_cover_stale [OF stale] by simp
  have miss: "map_of (cache ?s1) (artist, track) = None" by simp
  note facts = lastfm_cover_cached_miss [OF miss cached]
  show "cache s' = [((artist, track), r)]"
    using facts(2) by (simp add: MAXSIZE_def)
  show "last_cover_ttl s' = (last_cover_ttl s)(cover_key artist track \<mapsto> now + 3600)"
    using facts(3) by simp
  show "lookups s' = (artist, track) # lookups s"
    using facts(1) by simp
  show "requests s' = (if api_key = [] then requests s else (artist, track) # requests s)"
    using facts(4) by simp
  show "r = fst (lastfm_cover_impl api_key fetch artist track s)"
    using facts(5) by (simp add: lastfm_cover_impl_result)
qed

lemma lastfm_cover_fresh_hit:
  assumes fresh: "\<not> expiry s (cover_key artist track) < now"
    and hit: "map_of (cache s) (artist, track) = Some v"
    and call: "lastfm_cover api_key fetch now artist track s = (r, s')"
  shows "r = v" and "lookups s' = lookups s" and "requests s' = requests s"
    and "last_cover_ttl s' = last_cover_ttl s"
    and "cache s' = ((artist, track), v) # filter (\<lambda>e. fst e \<noteq> (artist, track)) (cache s)"
  using call lastfm_cover_fresh [OF fresh] lastfm_cover_cached_hit [OF hit]
  by auto

lemma lastfm_cover_fresh_miss:
  assumes fresh: "\<not> expiry s (cover_key artist track) < now"
    and miss: "map_of (cache s) (artist, track) = None"
    and call: "lastfm_cover api_key fetch now artist track s = (r, s')"
  shows "lookups s' = (artist, track) # lookups s"
    and "cache s' = ((artist, track), r) #
                      (if MAXSIZE \<le> length (cache s) then butlast (cache s) else cache s)"
    and "last_cover_ttl s' = last_cover_ttl s"
    and "requests s' = (if api_key = [] then requests s else (artist, track) # requests s)"
    and "r = fst (lastfm_cover_impl api_key fetch artist track s)"
proof -
  have cached: "lastfm_cover_cached api_key fetch artist track s = (r, s')"
    using call lastfm_cover_fresh [OF fresh] by simp
  note facts = lastfm_cover_cached_miss [OF miss cached]
  show "lookups s' = (artist, track) # lookups s" by (rule facts(1))
  show "cache s' = ((artist, track), r) #
                      (if MAXSIZE \<le> length (cache s) then butlast (cache s) else cache s)"
    by (rule facts(2))
  show "last_cover_ttl s' = last_cover_ttl s" by (rule facts(3))
  show "requests s' = (if api_key = [] then requests s else (artist, track) # requests s)"
    by (rule facts(4))
  show "r = fst (lastfm_cover_impl api_key fetch artist track s)" by (rule facts(5))
qed

text \<open>
  C3, amended: on every call of \<open>lastfm_cover\<close> with key = lowercase(artist) + "|" +
  lowercase(track): if the current time is past the stored expiry for that key, a key
  without stored expiry counting as expiry 0 (so a new key is stale at any time after the
  epoch), the whole memoization cache is cleared, the key's expiry is set to now + 3600
  and the underlying lookup is invoked, its result being the only entry memoized
  afterwards. If the key's expiry has not passed, no clear occurs and the expiries are
  unchanged; the memoized result is returned without invoking the underlying lookup when
  the cache holds an entry for the exact (artist, track) arguments, and otherwise the
  underlying lookup is invoked and its result memoized (dropping the least recently
  used entry of a full cache).
\<close>

theorem lastfm_cover_bucket_policy:
  assumes "lastfm_cover api_key fetch now artist track s = (r, s')"
  shows "(last_cover_ttl s (cover_key artist track) = None \<and> 0 < now
            \<longrightarrow> expiry s (cover_key artist track) < now) \<and>
         (expiry s (cover_key artist track) < now \<longrightarrow>
            cache s' = [((artist, track), r)] \<and>
            last_cover_ttl s' = (last_cover_ttl s)(cover_key artist track \<mapsto> now + 3600) \<and>
            lookups s' = (artist, track) # lookups s) \<and>
         (\<not> expiry s (cover_key artist track) < now \<longrightarrow>
            last_cover_ttl s' = last_cover_ttl s \<and>
            (case map_of (cache s) (artist, track) of
               Some v \<Rightarrow>
                 r = v \<and> lookups s' = lookups s \<and> requests s' = requests s \<and>
                 cache s' = ((artist, track), v) #
                              filter (\<lambda>e. fst e \<noteq> (artist, track)) (cache s)
             | None \<Rightarrow>
                 lookups s' = (artist, track) # lookups s \<and>
                 cache s' = ((artist, track), r) #
                              (if MAXSIZE \<le> length (cache s) then butlast (cache s)
                               else cache s)))"
proof (intro conjI impI)
  assume "last_cover_ttl s (cover_key artist track) = None \<and> 0 < now"
  then show "expiry s (cover_key artist track) < now"
    by (simp add: expiry_def)
next
  assume stale: "expiry s (cover_key artist track) < now"
  note facts = lastfm_cover_stale_call [OF stale assms]
  show "cache s' = [((artist, track), r)]" by (rule facts(1))
  show "last_cover_ttl s' = (last_cover_ttl s)(cover_key artist track \<mapsto> now + 3600)"
    by (rule facts(2))
  show "lookups s' = (artist, track) # lookups s" by (rule facts(3))
next
  assume fresh: "\<not> expiry s (cover_key artist track) < now"
  show "last_cover_ttl s' = last_cover_ttl s"
  proof (cases "map_of (cache s) (artist, track)")
    case None
    from lastfm_cover_fresh_miss(3) [OF fresh None assms] show ?thesis .
  next
    case (Some v)
    from lastfm_cover_fresh_hit(4) [OF fresh Some assms] show ?thesis .
  qed
  show "case map_of (cache s) (artist, track) of
          Some v \<Rightarrow>
            r = v \<and> lookups s' = lookups s \<and> requests s' = requests s \<and>
            cache s' = ((artist, track), v) # filter (\<lambda>e. fst e \<noteq> (artist, track)) (cache s)
        | None \<Rightarrow>
            lookups s' = (artist, track) # lookups s \<and>
            cache s' = ((artist, track), r) #
                         (if MAXSIZE \<le> length (cache s) then butlast (cache s) else cache s)"
  proof (cases "map_of (cache s) (artist, track)")
    case None
    with lastfm_cover_fresh_miss(1,2) [OF fresh None assms] show ?thesis by simp
  next
    case (Some v)
    with lastfm_cover_fresh_hit [OF fresh Some assms] show ?thesis by simp
  qed
qed

lemma initial_state_abba:
  "last_cover_ttl initial_state (cover_key ''Abba'' ''Sos'') = None \<and>
   expiry initial_state (cover_key ''Abba'' ''Sos'') < 100"
  by (simp add: initial_state_def expiry_def)

lemma abba_state_abba:
  "\<not> expiry abba_state (cover_key ''Abba'' ''Sos'') < 200 \<and>
   map_of (cache abba_state) (''Abba'', ''Sos'') = Some None"
  by code_simp

theorem lastfm_cover_bucket_policy_witness:
  "(last_cover_ttl initial_state (cover_key ''Abba'' ''Sos'') = None \<and> (0::real) < 100 \<and>
    expiry initial_state (cover_key ''Abba'' ''Sos'') < 100 \<and>
    cache (snd (lastfm_cover [] no_network 100 ''Abba'' ''Sos'' initial_state)) =
      [((''Abba'', ''Sos''), fst (lastfm_cover [] no_network 100 ''Abba'' ''Sos'' initial_state))] \<and>
    lookups (snd (lastfm_cover [] no_network 100 ''Abba'' ''Sos'' initial_state)) =
      (''Abba'', ''Sos'') # lookups initial_state) \<and>
   (\<not> expiry abba_state (cover_key ''Abba'' ''Sos'') < 200 \<and>
    fst (lastfm_cover [] no_network 200 ''Abba'' ''Sos'' abba_state) = None \<and>
    lookups (snd (lastfm_cover [] no_network 200 ''Abba'' ''Sos'' abba_state)) =
      lookups abba_state)"
  using lastfm_cover_bucket_policy [where api_key = "[]" and fetch = no_network and now = 100
      and artist = "''Abba''" and track = "''Sos''" and s = initial_state, OF surjective_pairing]
    lastfm_cover_bucket_policy [where api_key = "[]" and fetch = no_network and now = 200
      and artist = "''Abba''" and track = "''Sos''" and s = abba_state, OF surjective_pairing]
    initial_state_abba abba_state_abba
  by simp

lemma lower_abba: "lower ''ABBA'' = lower ''Abba'' \<and> lower ''SOS'' = lower ''Sos''"
  by code_simp

text \<open>
  C10. Two calls whose arguments differ only in letter case have the same key, hence one
  entry and one expiry in \<open>_last_cover_ttl\<close>; when the first call opens a bucket and the
  second falls into it, the second leaves the expiry alone and still invokes the
  underlying lookup, because the memoizing layer is keyed on the exact strings.
\<close>

theorem lastfm_cover_case_variants:
  assumes "lower artist_a = lower artist_b" and "lower track_a = lower track_b"
    and "(artist_a, track_a) \<noteq> (artist_b, track_b)"
    and "expiry s (cover_key artist_a track_a) < now_a"
    and "\<not> now_a + 3600 < now_b"
    and "lastfm_cover api_key fetch_a now_a artist_a track_a s = (r1, s1)"
    and "lastfm_cover api_key fetch_b now_b artist_b track_b s1 = (r2, s2)"
  shows "cover_key artist_a track_a = cover_key artist_b track_b \<and>
         last_cover_ttl s2 = (last_cover_ttl s)(cover_key artist_a track_a \<mapsto> now_a + 3600) \<and>
         lookups s2 = (artist_b, track_b) # (artist_a, track_a) # lookups s \<and>
         r2 = fst (lastfm_cover_impl api_key fetch_b artist_b track_b s1)"
proof -
  have key: "cover_key artist_a track_a = cover_key artist_b track_b"
    using assms(1,2) by (simp add: cover_key_def)
  note first = lastfm_cover_stale_call [OF assms(4) assms(6)]
  have fresh: "\<not> expiry s1 (cover_key artist_b track_b) < now_b"
    using first(2) assms(5) key by (simp add: expiry_def)
  have miss: "map_of (cache s1) (artist_b, track_b) = None"
    using first(1) assms(3) by auto
  note second = lastfm_cover_fresh_miss [OF fresh miss assms(7)]
  show ?thesis
    using key first(2,3) second(1,3,5) by simp
qed

theorem lastfm_cover_case_variants_witness:
  "lower ''Abba'' = lower ''ABBA'' \<and> lower ''Sos'' = lower ''SOS'' \<and>
   (''Abba'', ''Sos'') \<noteq> (''ABBA'', ''SOS'') \<and>
   expiry initial_state (cover_key ''Abba'' ''Sos'') < 100 \<and> \<not> (100 + 3600 < (200::real)) \<and>
   cover_key ''Abba'' ''Sos'' = cover_key ''ABBA'' ''SOS'' \<and>
   lookups (snd (lastfm_cover ''key'' no_network 200 ''ABBA'' ''SOS''
                  (snd (lastfm_cover ''key'' no_network 100 ''Abba'' ''Sos'' initial_state)))) =
     [(''ABBA'', ''SOS''), (''Abba'', ''Sos'')]"
  using lastfm_cover_case_variants [where api_key = "''key''" and fetch_a = no_network
      and fetch_b = no_network and now_a = 100 and now_b = 200 and s = initial_state
      and artist_a = "''Abba''" and track_a = "''Sos''"
      and artist_b = "''ABBA''" and track_b = "''SOS''",
      OF _ _ _ _ _ surjective_pairing surjective_pairing]
    initial_state_abba lower_abba
  by (simp add: initial_state_def)

lemma all_none_step:
  assumes "\<forall>e \<in> set (cache s). snd e = None"
    and "lastfm_cover [] fetch now artist track s = (r, s')"
  shows "r = None \<and> requests s' = requests s \<and> (\<forall>e \<in> set (cache s'). snd e = None)"
proof (cases "expiry s (cover_key artist track) < now")
  case True
  note facts = lastfm_cover_stale_call [OF True assms(2)]
  from facts(5) have "r = None" by (simp add: lastfm_cover_impl_no_key)
  with facts(1,4) show ?thesis by simp
next
  case False
  show ?thesis
  proof (cases "map_of (cache s) (artist, track)")
    case None
    note facts = lastfm_cover_fresh_miss [OF False None assms(2)]
    from facts(5) have "r = None" by (simp add: lastfm_cover_impl_no_key)
    with facts(2,4) assms(1) show ?thesis
      by (auto dest: in_set_butlastD)
  next
    case (Some v)
    note facts = lastfm_cover_fresh_hit [OF False Some assms(2)]
    from Some have "((artist, track), v) \<in> set (cache s)" by (rule map_of_SomeD)
    with assms(1) have "v = None" by auto
    with facts assms(1) show ?thesis by auto
  qed
qed

lemma all_none_calls:
  assumes "\<forall>e \<in> set (cache s). snd e = None"
  shows "fst (lastfm_cover_calls [] calls s) = replicate (length calls) None \<and>
         requests (snd (lastfm_cover_calls [] calls s)) = requests s"
  using assms
proof (induction calls arbitrary: s)
  case Nil
  show ?case by simp
next
  case (Cons c calls)
  obtain fetch now artist track where c: "c = (fetch, now, artist, track)"
    by (cases c) auto
  obtain r s' where step: "lastfm_cover [] fetch now artist track s = (r, s')"
    by (cases "lastfm_cover [] fetch now artist track s") auto
  from all_none_step [OF Cons.prems step]
  have r: "r = None" and req: "requests s' = requests s"
    and inv: "\<forall>e \<in> set (cache s'). snd e = None" by auto
  from Cons.IH [OF inv] c step r req show ?case
    by (simp add: split_beta)
qed

text \<open>
  C8. Without an API credential the underlying lookup returns absence at once and
  leaves everything as it was, and however \<open>lastfm_cover\<close> is called from the start of
  the process on, every call returns absence and no HTTP request is ever made.
\<close>

theorem lastfm_cover_no_credential:
  "lastfm_cover_impl [] fetch artist track s = (None, s) \<and>
   fst (lastfm_cover_calls [] calls initial_state) = replicate (length calls) None \<and>
   requests (snd (lastfm_cover_calls [] calls initial_state)) = []"
  using all_none_calls [of initial_state calls]
  by (simp add: lastfm_cover_impl_no_key initial_state_def)

section \<open>Memoization between clears\<close>

lemma map_of_first_entry:
  assumes "key \<notin> fst ` set pre"
  shows "map_of (pre @ (key, v) # post) key = Some v"
proof -
  from assms have "map_of pre key = None" by (simp add: map_of_eq_None_iff)
  then show ?thesis by (simp add: map_of_append map_add_def)
qed

text \<open>
  One call that does not clear the cache keeps the entry of another pair, at most one
  place further from the front, as long as the entry is not the last of a full table.
\<close>

lemma memo_entry_step:
  assumes cache: "cache s = pre @ (key, v) # post"
    and first: "key \<notin> fst ` set pre"
    and near: "Suc (length pre) < MAXSIZE"
    and fresh: "\<not> expiry s (cover_key artist track) < now"
    and call: "lastfm_cover api_key fetch now artist track s = (r, s')"
  shows "\<exists>pre' post'. cache s' = pre' @ (key, v) # post' \<and> key \<notin> fst ` set pre' \<and>
           length pre' \<le> Suc (length pre)"
    and "count_list (lookups s') key = count_list (lookups s) key"
proof -
  have found: "map_of (cache s) key = Some v"
    using cache map_of_first_entry [OF first] by simp
  have "(\<exists>pre' post'. cache s' = pre' @ (key, v) # post' \<and> key \<notin> fst ` set pre' \<and>
           length pre' \<le> Suc (length pre)) \<and>
        count_list (lookups s') key = count_list (lookups s) key"
  proof (cases "(artist, track) = key")
    case True
    note facts = lastfm_cover_fresh_hit [OF fresh found [folded True] call]
    have "cache s' = [] @ (key, v) # filter (\<lambda>e. fst e \<noteq> key) (cache s)"
      using facts(5) True by simp
    moreover have "key \<notin> fst ` set []" by simp
    ultimately have "\<exists>pre' post'. cache s' = pre' @ (key, v) # post' \<and> key \<notin> fst ` set pre' \<and>
           length pre' \<le> Suc (length pre)"
      by (metis le0 list.size(3))
    with facts(2) show ?thesis by simp
  next
    case other: False
    show ?thesis
    proof (cases "map_of (cache s) (artist, track)")
      case (Some u)
      note facts = lastfm_cover_fresh_hit [OF fresh Some call]
      let ?keep = "\<lambda>e. fst e \<noteq> (artist, track)"
      have "cache s' = (((artist, track), u) # filter ?keep pre) @ (key, v) # filter ?keep post"
        using facts(5) cache other by auto
      moreover have "key \<notin> fst ` set (((artist, track), u) # filter ?keep pre)"
        using first other by auto
      moreover have "length (((artist, track), u) # filter ?keep pre) \<le> Suc (length pre)"
        by simp
      ultimately have "\<exists>pre' post'. cache s' = pre' @ (key, v) # post' \<and>
           key \<notin> fst ` set pre' \<and> length pre' \<le> Suc (length pre)"
        by blast
      with facts(2) show ?thesis by simp
    next
      case None
      note facts = lastfm_cover_fresh_miss [OF fresh None call]
      have count: "count_list (lookups s') key = count_list (lookups s) key"
        using facts(1) other by simp
      show ?thesis
      proof (cases "MAXSIZE \<le> length (cache s)")
        case True
        with near cache have "post \<noteq> []" by auto
        then have "butlast (cache s) = pre @ (key, v) # butlast post"
          using cache by (simp add: butlast_append)
        with facts(2) True
        have "cache s' = (((artist, track), r) # pre) @ (key, v) # butlast post" by simp
        moreover have "key \<notin> fst ` set (((artist, track), r) # pre)"
          using first other by auto
        moreover have "length (((artist, track), r) # pre) \<le> Suc (length pre)" by simp
        ultimately have "\<exists>pre' post'. cache s' = pre' @ (key, v) # post' \<and>
             key \<notin> fst ` set pre' \<and> length pre' \<le> Suc (length pre)"
          by blast
        with count show ?thesis by simp
      next
        case False
        with facts(2) cache
        have "cache s' = (((artist, track), r) # pre) @ (key, v) # post" by simp
        moreover have "key \<notin> fst ` set (((artist, track), r) # pre)"
          using first other by auto
        moreover have "length (((artist, track), r) # pre) \<le> Suc (length pre)" by simp
        ultimately have "\<exists>pre' post'. cache s' = pre' @ (key, v) # post' \<and>
             key \<notin> fst ` set pre' \<and> length pre' \<le> Suc (length pre)"
          by blast
        with count show ?thesis by simp
      qed
    qed
  qed
  then show "\<exists>pre' post'. cache s' = pre' @ (key, v) # post' \<and> key \<notin> fst ` set pre' \<and>
           length pre' \<le> Suc (length pre)"
    and "count_list (lookups s') key = count_list (lookups s) key"
    by auto
qed

lemma memo_entry_calls:
  assumes "cache s = pre @ (key, v) # post"
    and "key \<notin> fst ` set pre"
    and "length pre + length calls < MAXSIZE"
    and "no_clear api_key calls s"
  shows "(\<exists>pre' post'. cache (snd (lastfm_cover_calls api_key calls s)) = pre' @ (key, v) # post' \<and>
            key \<notin> fst ` set pre') \<and>
         count_list (lookups (snd (lastfm_cover_calls api_key calls s))) key =
           count_list (lookups s) key"
  using assms
proof (induction calls arbitrary: s pre post)
  case Nil
  then show ?case by auto
next
  case (Cons c calls)
  obtain fetch now artist track where c: "c = (fetch, now, artist, track)"
    by (cases c) auto
  obtain r s' where step: "lastfm_cover api_key fetch now artist track s = (r, s')"
    by (cases "lastfm_cover api_key fetch now artist track s") auto
  from Cons.prems(4) c step
  have fresh: "\<not> expiry s (cover_key artist track) < now" and rest: "no_clear api_key calls s'"
    by auto
  from Cons.prems(3) have near: "Suc (length pre) < MAXSIZE" by simp
  from memo_entry_step [OF Cons.prems(1,2) near fresh step]
  obtain pre' post' where cache': "cache s' = pre' @ (key, v) # post'"
    and first': "key \<notin> fst ` set pre'" and len': "length pre' \<le> Suc (length pre)"
    and count: "count_list (lookups s') key = count_list (lookups s) key"
    by blast
  from len' Cons.prems(3) have bound: "length pre' + length calls < MAXSIZE" by simp
  from Cons.IH [OF cache' first' bound rest] c step count show ?case
    by (simp add: split_beta)
qed

text \<open>After any call the pair just asked for is the first entry of the cache.\<close>

lemma lastfm_cover_memoizes:
  assumes "lastfm_cover api_key fetch now artist track s = (r, s')"
  shows "\<exists>post. cache s' = ((artist, track), r) # post"
    and "count_list (lookups s') (artist, track) \<le> Suc (count_list (lookups s) (artist, track))"
proof -
  have "(\<exists>post. cache s' = ((artist, track), r) # post) \<and>
        count_list (lookups s') (artist, track) \<le> Suc (count_list (lookups s) (artist, track))"
  proof (cases "expiry s (cover_key artist track) < now")
    case True
    from lastfm_cover_stale_call(1,3) [OF True assms] show ?thesis by simp
  next
    case False
    show ?thesis
    proof (cases "map_of (cache s) (artist, track)")
      case None
      from lastfm_cover_fresh_miss(1,2) [OF False None assms] show ?thesis by simp
    next
      case (Some v)
      from lastfm_cover_fresh_hit(1,2,5) [OF False Some assms] show ?thesis by simp
    qed
  qed
  then show "\<exists>post. cache s' = ((artist, track), r) # post"
    and "count_list (lookups s') (artist, track) \<le> Suc (count_list (lookups s) (artist, track))"
    by auto
qed

text \<open>
  C4, as stated: two lookups of the same pair before the key's expiry has passed return
  identical results and invoke the underlying lookup at most once. With a lookup of
  another pair in between (a new key, which clears everything memoized) the pair is
  looked up twice, and since the network answers differently the second time, the two
  results differ.
\<close>

theorem lastfm_cover_lookup_repeated:
  "(let (r1, s1) = lastfm_cover ''key'' (network_with ''x.jpg'') 10 ''Abba'' ''Sos'' initial_state;
        (r2, s2) = lastfm_cover ''key'' no_network 20 ''Queen'' ''Flash'' s1;
        (r3, s3) = lastfm_cover ''key'' no_network 30 ''Abba'' ''Sos'' s2
    in \<not> expiry s2 (cover_key ''Abba'' ''Sos'') < 30 \<and>
       r1 = Some (JStr ''x.jpg'') \<and> r3 = None \<and>
       count_list (lookups s3) (''Abba'', ''Sos'') = 2)"
  by code_simp

text \<open>
  C4, amended: for every artist a and track t, two calls \<open>lastfm_cover(a, t)\<close>, the second
  before the key's expiry has passed, return identical results and invoke the underlying
  lookup at most once in total (the second call invokes nothing and sends nothing),
  provided that none of the calls in between clears the cache (each finds its own key
  unexpired) and that fewer than 256 calls lie in between; two consecutive calls are the
  case of no call in between. The memo entry is lost by the clear-all of any key found
  expired or new, and by eviction from the 256-entry table.
\<close>

theorem lastfm_cover_memoized:
  assumes first: "lastfm_cover api_key fetch_a now_a artist track s = (r_a, s_a)"
    and between: "no_clear api_key calls s_a"
    and few: "length calls < MAXSIZE"
    and fresh: "\<not> expiry (snd (lastfm_cover_calls api_key calls s_a)) (cover_key artist track) < now_b"
    and second: "lastfm_cover api_key fetch_b now_b artist track
                   (snd (lastfm_cover_calls api_key calls s_a)) = (r_b, s_b)"
  shows "r_b = r_a \<and>
         lookups s_b = lookups (snd (lastfm_cover_calls api_key calls s_a)) \<and>
         requests s_b = requests (snd (lastfm_cover_calls api_key calls s_a)) \<and>
         count_list (lookups s_b) (artist, track) \<le> Suc (count_list (lookups s) (artist, track))"
proof -
  let ?mid = "snd (lastfm_cover_calls api_key calls s_a)"
  from lastfm_cover_memoizes [OF first]
  obtain post where head: "cache s_a = [] @ ((artist, track), r_a) # post"
    and once: "count_list (lookups s_a) (artist, track) \<le> Suc (count_list (lookups s) (artist, track))"
    by auto
  have none: "(artist, track) \<notin> fst ` set []" by simp
  have bound: "length ([] :: ((string \<times> string) \<times> json option) list) + length calls < MAXSIZE"
    using few by simp
  from memo_entry_calls [OF head none bound between]
  obtain pre' post' where kept: "cache ?mid = pre' @ ((artist, track), r_a) # post'"
    and first': "(artist, track) \<notin> fst ` set pre'"
    and same: "count_list (lookups ?mid) (artist, track) = count_list (lookups s_a) (artist, track)"
    by blast
  have hit: "map_of (cache ?mid) (artist, track) = Some r_a"
    using kept map_of_first_entry [OF first'] by simp
  note facts = lastfm_cover_fresh_hit [OF fresh hit second]
  show ?thesis
    using facts(1,2,3) same once by simp
qed

lemma abba_between:
  "no_clear ''key'' [(no_network, 150, ''Abba'', ''SOS'')]
     (snd (lastfm_cover ''key'' (network_with ''x.jpg'') 100 ''Abba'' ''Sos'' initial_state)) \<and>
   \<not> expiry (snd (lastfm_cover_calls ''key'' [(no_network, 150, ''Abba'', ''SOS'')]
        (snd (lastfm_cover ''key'' (network_with ''x.jpg'') 100 ''Abba'' ''Sos'' initial_state))))
      (cover_key ''Abba'' ''Sos'') < 200 \<and>
   fst (lastfm_cover ''key'' (network_with ''x.jpg'') 100 ''Abba'' ''Sos'' initial_state) =
     Some (JStr ''x.jpg'')"
  by code_simp

theorem lastfm_cover_memoized_witness:
  "no_clear ''key'' [(no_network, 150, ''Abba'', ''SOS'')]
     (snd (lastfm_cover ''key'' (network_with ''x.jpg'') 100 ''Abba'' ''Sos'' initial_state)) \<and>
   length [(no_network, 150 :: real, ''Abba'', ''SOS'')] < MAXSIZE \<and>
   \<not> expiry (snd (lastfm_cover_calls ''key'' [(no_network, 150, ''Abba'', ''SOS'')]
        (snd (lastfm_cover ''key'' (network_with ''x.jpg'') 100 ''Abba'' ''Sos'' initial_state))))
      (cover_key ''Abba'' ''Sos'') < 200 \<and>
   fst (lastfm_cover ''key'' no_network 200 ''Abba'' ''Sos''
     (snd (lastfm_cover_calls ''key'' [(no_network, 150, ''Abba'', ''SOS'')]
        (snd (lastfm_cover ''key'' (network_with ''x.jpg'') 100 ''Abba'' ''Sos'' initial_state))))) =
     Some (JStr ''x.jpg'')"
proof -
  have few: "length [(no_network, 150 :: real, ''Abba'', ''SOS'')] < MAXSIZE"
    by (simp add: MAXSIZE_def)
  from abba_between have between: "no_clear ''key'' [(no_network, 150, ''Abba'', ''SOS'')]
     (snd (lastfm_cover ''key'' (network_with ''x.jpg'') 100 ''Abba'' ''Sos'' initial_state))"
    and fresh: "\<not> expiry (snd (lastfm_cover_calls ''key'' [(no_network, 150, ''Abba'', ''SOS'')]
        (snd (lastfm_cover ''key'' (network_with ''x.jpg'') 100 ''Abba'' ''Sos'' initial_state))))
      (cover_key ''Abba'' ''Sos'') < 200"
    and result: "fst (lastfm_cover ''key'' (network_with ''x.jpg'') 100 ''Abba'' ''Sos'' initial_state) =
     Some (JStr ''x.jpg'')"
    by simp_all
  from lastfm_cover_memoized [OF surjective_pairing between few fresh surjective_pairing]
  show ?thesis
    using between few fresh result by simp
qed

section \<open>Properties of the image selection\<close>

lemma py_get_image_entry:
  "py_get (image_entry e) ''size'' = Some (JStr (fst e))"
  "py_get (image_entry e) ''#text'' = Some (JStr (snd e))"
  by (simp_all add: image_entry_def)

lemma find_None_bex: "(List.find P xs = None) = (\<not> (\<exists>x \<in> set xs. P x))"
  by (induction xs) auto

lemma scan_size_entries:
  "scan_size name (map image_entry es) =
     (case List.find (\<lambda>e. fst e = name \<and> snd e \<noteq> []) es of
        None \<Rightarrow> Finishes
      | Some e \<Rightarrow> Returns (JStr (snd e)))"
  by (induction es) (auto simp add: py_get_image_entry)

lemma scan_any_entries:
  "scan_any (map image_entry es) =
     (case List.find (\<lambda>e. snd e \<noteq> []) es of
        None \<Rightarrow> Finishes
      | Some e \<Rightarrow> Returns (JStr (snd e)))"
  by (induction es) (auto simp add: py_get_image_entry)

lemma scan_sizes_entries:
  "scan_sizes names (map image_entry es) =
     (case List.find (\<lambda>name. \<exists>e \<in> set es. fst e = name \<and> snd e \<noteq> []) names of
        None \<Rightarrow> Finishes
      | Some name \<Rightarrow>
          (case List.find (\<lambda>e. fst e = name \<and> snd e \<noteq> []) es of
             None \<Rightarrow> Finishes
           | Some e \<Rightarrow> Returns (JStr (snd e))))"
proof (induction names)
  case Nil
  show ?case by simp
next
  case (Cons name names)
  show ?case
  proof (cases "\<exists>e \<in> set es. fst e = name \<and> snd e \<noteq> []")
    case False
    then have "List.find (\<lambda>e. fst e = name \<and> snd e \<noteq> []) es = None"
      by (simp only: find_None_bex not_False_eq_True)
    with False Cons.IH show ?thesis
      by (auto simp add: scan_size_entries)
  next
    case True
    then have "List.find (\<lambda>e. fst e = name \<and> snd e \<noteq> []) es \<noteq> None"
      by (simp only: find_None_bex not_not)
    then obtain e where "List.find (\<lambda>e. fst e = name \<and> snd e \<noteq> []) es = Some e"
      by auto
    with True show ?thesis
      by (simp add: scan_size_entries)
  qed
qed

lemma find_entry_among:
  assumes "List.find (\<lambda>name. \<exists>e \<in> set es. fst e = name \<and> snd e \<noteq> []) names = Some name"
  shows "List.find (\<lambda>e. fst e = name \<and> snd e \<noteq> []) es \<noteq> None"
proof -
  from assms have "\<exists>e \<in> set es. fst e = name \<and> snd e \<noteq> []"
    by (auto simp add: find_Some_iff)
  then show ?thesis by (simp only: find_None_bex not_not)
qed

text \<open>Once \<open>images\<close> is a list of well-formed entries, the loops find the preferred URL.\<close>

lemma select_image_entries:
  assumes "find_images data = Some (Some (image_list es))"
  shows "select_image data = map_option JStr (preferred_url es)"
proof (cases "es = []")
  case True
  with assms show ?thesis
    by (simp add: select_image_def image_list_def preferred_url_def SIZES_def)
next
  case False
  show ?thesis
  proof (cases "List.find (\<lambda>name. \<exists>e \<in> set es. fst e = name \<and> snd e \<noteq> []) SIZES")
    case None
    with assms False show ?thesis
      by (auto simp add: select_image_def image_list_def preferred_url_def scan_sizes_entries
          scan_any_entries split: option.splits)
  next
    case (Some name)
    with find_entry_among [OF Some] assms False show ?thesis
      by (auto simp add: select_image_def image_list_def preferred_url_def scan_sizes_entries
          split: option.splits)
  qed
qed

lemma in_keys_iff: "(k \<in> fst ` set kvs) = (map_of kvs k \<noteq> None)"
  by (simp add: map_of_eq_None_iff)

lemma find_images_album:
  assumes "map_of body ''track'' = Some (JObj tr)"
    and "map_of tr ''album'' = Some (JObj al)" and "map_of al ''image'' = Some imgs"
  shows "find_images (JObj body) = Some (Some imgs)"
  using assms by (simp add: find_images_def in_keys_iff)

lemma find_images_track:
  assumes "map_of body ''track'' = Some (JObj tr)"
    and "map_of tr ''album'' = None \<or>
         (map_of tr ''album'' = Some (JObj al) \<and> map_of al ''image'' = None)"
  shows "find_images (JObj body) =
           (case map_of tr ''image'' of None \<Rightarrow> Some None | Some imgs \<Rightarrow> Some (Some imgs))"
  using assms by (auto simp add: find_images_def in_keys_iff split: option.splits)

text \<open>
  C6. With a credential, \<open>_lastfm_cover\<close> returns absence when the HTTP call or the
  parsing fails. On a parsed response with a track object it takes the album's image
  list when the album has one and the track's image list otherwise, and from a list of
  well-formed entries returns the preferred URL: the first entry with a non-empty URL at
  the first of the sizes extralarge, mega, large, medium that has one, else the first
  entry with a non-empty URL, else absence. Without any image list it returns absence.
\<close>

theorem lastfm_cover_impl_selection:
  assumes "api_key \<noteq> []"
  shows "(fetch artist track = None \<longrightarrow>
            fst (lastfm_cover_impl api_key fetch artist track s) = None) \<and>
         (fetch artist track = Some (JObj body) \<and> map_of body ''track'' = Some (JObj tr) \<longrightarrow>
            (map_of tr ''album'' = Some (JObj al) \<and> map_of al ''image'' = Some (image_list es)
               \<longrightarrow> fst (lastfm_cover_impl api_key fetch artist track s) =
                     map_option JStr (preferred_url es)) \<and>
            ((map_of tr ''album'' = None \<or>
              (map_of tr ''album'' = Some (JObj al) \<and> map_of al ''image'' = None)) \<and>
             map_of tr ''image'' = Some (image_list es)
               \<longrightarrow> fst (lastfm_cover_impl api_key fetch artist track s) =
                     map_option JStr (preferred_url es)) \<and>
            ((map_of tr ''album'' = None \<or>
              (map_of tr ''album'' = Some (JObj al) \<and> map_of al ''image'' = None)) \<and>
             map_of tr ''image'' = None
               \<longrightarrow> fst (lastfm_cover_impl api_key fetch artist track s) = None))"
proof (intro conjI impI)
  assume "fetch artist track = None"
  with assms show "fst (lastfm_cover_impl api_key fetch artist track s) = None"
    by (simp add: lastfm_cover_impl_result)
next
  assume resp: "fetch artist track = Some (JObj body) \<and> map_of body ''track'' = Some (JObj tr)"
    and album: "map_of tr ''album'' = Some (JObj al) \<and> map_of al ''image'' = Some (image_list es)"
  from resp album have "find_images (JObj body) = Some (Some (image_list es))"
    by (simp add: find_images_album)
  then have "select_image (JObj body) = map_option JStr (preferred_url es)"
    by (rule select_image_entries)
  with assms resp show "fst (lastfm_cover_impl api_key fetch artist track s) =
      map_option JStr (preferred_url es)"
    by (simp add: lastfm_cover_impl_result)
next
  assume resp: "fetch artist track = Some (JObj body) \<and> map_of body ''track'' = Some (JObj tr)"
    and track: "(map_of tr ''album'' = None \<or>
              (map_of tr ''album'' = Some (JObj al) \<and> map_of al ''image'' = None)) \<and>
             map_of tr ''image'' = Some (image_list es)"
  from resp have tr: "map_of body ''track'' = Some (JObj tr)" by simp
  from track have no_album: "map_of tr ''album'' = None \<or>
      (map_of tr ''album'' = Some (JObj al) \<and> map_of al ''image'' = None)"
    and image: "map_of tr ''image'' = Some (image_list es)" by auto
  from find_images_track [OF tr no_album] image
  have "find_images (JObj body) = Some (Some (image_list es))" by simp
  then have "select_image (JObj body) = map_option JStr (preferred_url es)"
    by (rule select_image_entries)
  with assms resp show "fst (lastfm_cover_impl api_key fetch artist track s) =
      map_option JStr (preferred_url es)"
    by (simp add: lastfm_cover_impl_result)
next
  assume resp: "fetch artist track = Some (JObj body) \<and> map_of body ''track'' = Some (JObj tr)"
    and no_image: "(map_of tr ''album'' = None \<or>
              (map_of tr ''album'' = Some (JObj al) \<and> map_of al ''image'' = None)) \<and>
             map_of tr ''image'' = None"
  from resp have tr: "map_of body ''track'' = Some (JObj tr)" by simp
  from no_image have no_album: "map_of tr ''album'' = None \<or>
      (map_of tr ''album'' = Some (JObj al) \<and> map_of al ''image'' = None)"
    and image: "map_of tr ''image'' = None" by auto
  from find_images_track [OF tr no_album] image
  have "find_images (JObj body) = Some None" by simp
  then have "select_image (JObj body) = None"
    by (simp add: select_image_def)
  with assms resp show "fst (lastfm_cover_impl api_key fetch artist track s) = None"
    by (simp add: lastfm_cover_impl_result)
qed

lemma small_large_preferred: "preferred_url small_large_images = Some ''l.jpg''"
  by code_simp

lemma small_large_shape:
  "map_of small_large_body ''track'' = Some (JObj small_large_track) \<and>
   map_of small_large_track ''album'' = Some (JObj small_large_album) \<and>
   map_of small_large_album ''image'' = Some (image_list small_large_images)"
  by (simp add: small_large_body_def small_large_track_def small_large_album_def)

theorem lastfm_cover_impl_selection_witness:
  "''key'' \<noteq> [] \<and>
   fst (lastfm_cover_impl ''key'' no_network ''Abba'' ''Sos'' initial_state) = None \<and>
   map_of small_large_body ''track'' = Some (JObj small_large_track) \<and>
   map_of small_large_track ''album'' = Some (JObj small_large_album) \<and>
   map_of small_large_album ''image'' = Some (image_list small_large_images) \<and>
   fst (lastfm_cover_impl ''key'' (\<lambda>artist track. Some (JObj small_large_body))
          ''Abba'' ''Sos'' initial_state) = Some (JStr ''l.jpg'')"
proof -
  have key: "''key'' \<noteq> []" by simp
  from lastfm_cover_impl_selection [OF key, where fetch = no_network and artist = "''Abba''"
      and track = "''Sos''" and s = initial_state]
  have failed: "fst (lastfm_cover_impl ''key'' no_network ''Abba'' ''Sos'' initial_state) = None"
    by (simp add: no_network_def)
  from lastfm_cover_impl_selection [OF key,
      where fetch = "\<lambda>artist track. Some (JObj small_large_body)" and artist = "''Abba''"
      and track = "''Sos''" and s = initial_state and body = small_large_body
      and tr = small_large_track and al = small_large_album and es = small_large_images]
    small_large_shape small_large_preferred
  have "fst (lastfm_cover_impl ''key'' (\<lambda>artist track. Some (JObj small_large_body))
          ''Abba'' ''Sos'' initial_state) = Some (JStr ''l.jpg'')"
    by simp
  with key failed small_large_shape show ?thesis by simp
qed

section \<open>Properties of the now-playing resolver\<close>

lemma poll_skip:
  assumes "\<forall>q \<in> set pre. lower (player_status w q) = ''playing'' \<longrightarrow> player_metadata w q = Inr None"
  shows "poll w api_key fetch now (pre @ rest) s = poll w api_key fetch now rest s"
  using assms by (induction pre) auto

lemma poll_select:
  assumes "lower (player_status w p) = ''playing''" and "player_metadata w p = Inr (Some meta)"
  shows "poll w api_key fetch now (p # post) s =
     (let (cover, s') = resolve_cover w api_key fetch now (md_title meta) (md_artist meta)
                          (md_artUrl meta) s
      in (Inr (Playing (md_title meta) (md_artist meta) (md_album meta) cover
                 (if md_player meta \<noteq> [] then md_player meta else p)
                 (md_position meta) (md_length meta)), s'))"
  using assms by simp

lemma poll_raise:
  assumes "lower (player_status w p) = ''playing''" and "player_metadata w p = Inl e"
  shows "poll w api_key fetch now (p # post) s = (Inl e, s)"
  using assms by simp

lemma player_metadata_player:
  assumes "player_metadata w p = Inr (Some meta)"
  shows "md_player meta = p"
  using assms
  by (auto simp add: player_metadata_def Let_def split: if_splits sum.splits)

text \<open>
  As long as no polled player's metadata raises, the resolver answers as C1 says:
  stopped when no player is playing with non-empty metadata, and otherwise the playing
  shape built from the first such player, players before it being skipped.
\<close>

lemma get_now_playing_stopped:
  assumes "\<forall>q \<in> set (list_players (run_list w)).
             lower (player_status w q) = ''playing'' \<longrightarrow> player_metadata w q = Inr None"
  shows "get_now_playing w api_key fetch now s = (Inr Stopped, s)"
  using poll_skip [OF assms, of api_key fetch now "[]" s]
  by (simp add: get_now_playing_def)

lemma get_now_playing_first:
  assumes "list_players (run_list w) = pre @ p # post"
    and "\<forall>q \<in> set pre. lower (player_status w q) = ''playing'' \<longrightarrow> player_metadata w q = Inr None"
    and "lower (player_status w p) = ''playing''"
    and "player_metadata w p = Inr (Some meta)"
  shows "get_now_playing w api_key fetch now s =
     (let (cover, s') = resolve_cover w api_key fetch now (md_title meta) (md_artist meta)
                          (md_artUrl meta) s
      in (Inr (Playing (md_title meta) (md_artist meta) (md_album meta) cover p
                 (md_position meta) (md_length meta)), s'))"
proof -
  have "get_now_playing w api_key fetch now s = poll w api_key fetch now (p # post) s"
    using assms(1) poll_skip [OF assms(2)] by (simp add: get_now_playing_def)
  also have "\<dots> = (let (cover, s') = resolve_cover w api_key fetch now (md_title meta)
                          (md_artist meta) (md_artUrl meta) s
      in (Inr (Playing (md_title meta) (md_artist meta) (md_album meta) cover p
                 (md_position meta) (md_length meta)), s'))"
    using poll_select [OF assms(3,4)] player_metadata_player [OF assms(4)] by simp
  finally show ?thesis .
qed

lemma huge_length_raises:
  assumes "run_metadata w p = huge_length_raw"
  shows "player_metadata w p = Inl OverflowError"
  using assms
  by (simp add: player_metadata_def Let_def huge_length_raw_delimited huge_length_raw_field
      huge_length_raw_seconds)

lemma overflow_world_players:
  "list_players (run_list overflow_world) = [''spotify''] \<and>
   lower (player_status overflow_world ''spotify'') = ''playing''"
  by code_simp

lemma overflow_world_metadata: "run_metadata overflow_world p = huge_length_raw"
  by (simp add: overflow_world_def quiet_world_def)

text \<open>
  C1. The claim: \<open>get_now_playing\<close> always returns one of the two shapes. With one
  player that is playing and whose metadata line carries a 330-digit length, the
  \<open>OverflowError\<close> of \<open>player_metadata\<close> passes through \<open>get_now_playing\<close>, which has no
  handler: neither shape is returned.
\<close>

theorem get_now_playing_raises:
  "get_now_playing overflow_world api_key fetch now s = (Inl OverflowError, s)"
  using poll_raise [of overflow_world "''spotify''" OverflowError api_key fetch now "[]" s]
    overflow_world_players huge_length_raises [OF overflow_world_metadata]
  by (simp add: get_now_playing_def)

text \<open>
  C5. For the player the resolver selects (the first one that is playing with non-empty
  metadata), the result is the playing shape with the metadata's fields, and its cover
  is: the remote lookup for (artist, title) when the cover reference is empty and title
  and artist are not; the remote lookup as well when the reference starts with
  \<open>file://\<close>, the path behind the prefix does not exist and title and artist are not
  empty; and in every other case the reference unchanged, the cover resolver not being
  called at all.
\<close>

theorem get_now_playing_cover_policy:
  assumes "list_players (run_list w) = pre @ p # post"
    and "\<forall>q \<in> set pre. lower (player_status w q) = ''playing'' \<longrightarrow> player_metadata w q = Inr None"
    and "lower (player_status w p) = ''playing''"
    and "player_metadata w p = Inr (Some meta)"
  shows "(md_artUrl meta = [] \<and> md_title meta \<noteq> [] \<and> md_artist meta \<noteq> [] \<longrightarrow>
            get_now_playing w api_key fetch now s =
              (Inr (Playing (md_title meta) (md_artist meta) (md_album meta)
                      (or_empty (fst (lastfm_cover api_key fetch now (md_artist meta)
                                        (md_title meta) s)))
                      p (md_position meta) (md_length meta)),
               snd (lastfm_cover api_key fetch now (md_artist meta) (md_title meta) s))) \<and>
         (startswith (md_artUrl meta) ''file://'' \<and> \<not> path_exists w (drop 7 (md_artUrl meta)) \<and>
          md_title meta \<noteq> [] \<and> md_artist meta \<noteq> [] \<longrightarrow>
            get_now_playing w api_key fetch now s =
              (Inr (Playing (md_title meta) (md_artist meta) (md_album meta)
                      (or_empty (fst (lastfm_cover api_key fetch now (md_artist meta)
                                        (md_title meta) s)))
                      p (md_position meta) (md_length meta)),
               snd (lastfm_cover api_key fetch now (md_artist meta) (md_title meta) s))) \<and>
         (\<not> (md_artUrl meta = [] \<and> md_title meta \<noteq> [] \<and> md_artist meta \<noteq> []) \<and>
          \<not> (startswith (md_artUrl meta) ''file://'' \<and>
              \<not> path_exists w (drop 7 (md_artUrl meta)) \<and>
              md_title meta \<noteq> [] \<and> md_artist meta \<noteq> []) \<longrightarrow>
            get_now_playing w api_key fetch now s =
              (Inr (Playing (md_title meta) (md_artist meta) (md_album meta)
                      (JStr (md_artUrl meta)) p (md_position meta) (md_length meta)), s))"
proof -
  note first = get_now_playing_first [OF assms, of api_key fetch now s]
  have prefix: "startswith [] ''file://'' = False" by simp
  show ?thesis
  proof (intro conjI impI)
    assume "md_artUrl meta = [] \<and> md_title meta \<noteq> [] \<and> md_artist meta \<noteq> []"
    then show "get_now_playing w api_key fetch now s =
              (Inr (Playing (md_title meta) (md_artist meta) (md_album meta)
                      (or_empty (fst (lastfm_cover api_key fetch now (md_artist meta)
                                        (md_title meta) s)))
                      p (md_position meta) (md_length meta)),
               snd (lastfm_cover api_key fetch now (md_artist meta) (md_title meta) s))"
      using first by (simp add: resolve_cover_def split_beta)
  next
    assume local: "startswith (md_artUrl meta) ''file://'' \<and>
        \<not> path_exists w (drop 7 (md_artUrl meta)) \<and>
        md_title meta \<noteq> [] \<and> md_artist meta \<noteq> []"
    then have "md_artUrl meta \<noteq> []" using prefix by auto
    with local show "get_now_playing w api_key fetch now s =
              (Inr (Playing (md_title meta) (md_artist meta) (md_album meta)
                      (or_empty (fst (lastfm_cover api_key fetch now (md_artist meta)
                                        (md_title meta) s)))
                      p (md_position meta) (md_length meta)),
               snd (lastfm_cover api_key fetch now (md_artist meta) (md_title meta) s))"
      using first by (simp add: resolve_cover_def split_beta Let_def)
  next
    assume "\<not> (md_artUrl meta = [] \<and> md_title meta \<noteq> [] \<and> md_artist meta \<noteq> []) \<and>
          \<not> (startswith (md_artUrl meta) ''file://'' \<and>
              \<not> path_exists w (drop 7 (md_artUrl meta)) \<and>
              md_title meta \<noteq> [] \<and> md_artist meta \<noteq> [])"
    then show "get_now_playing w api_key fetch now s =
              (Inr (Playing (md_title meta) (md_artist meta) (md_album meta)
                      (JStr (md_artUrl meta)) p (md_position meta) (md_length meta)), s)"
      using first by (auto simp add: resolve_cover_def split_beta Let_def)
  qed
qed

lemma scenario_players:
  "list_players (run_list scenario_world) = [''firefox.instance1''] @ ''spotify.instance2'' # []"
  by code_simp

lemma scenario_skipped:
  "\<forall>q \<in> set [''firefox.instance1''].
     lower (player_status scenario_world q) = ''playing'' \<longrightarrow>
     player_metadata scenario_world q = Inr None"
  by code_simp

lemma scenario_playing: "lower (player_status scenario_world ''spotify.instance2'') = ''playing''"
  by code_simp

lemma scenario_metadata:
  "player_metadata scenario_world ''spotify.instance2'' =
     Inr (Some \<lparr>md_title = ''A'', md_artist = ''B'', md_album = [], md_artUrl = [],
                md_player = ''spotify.instance2'', md_position = Finite 0,
                md_length = Finite 0\<rparr>)"
  by code_simp

lemma scenario_lookup:
  "or_empty (fst (lastfm_cover ''key'' (network_with ''http://img/x.jpg'') 100 ''B'' ''A''
                    initial_state)) = JStr ''http://img/x.jpg''"
  by code_simp

lemma missing_file_players:
  "list_players (run_list missing_file_world) = [] @ ''spotify.instance2'' # []"
  by code_simp

lemma missing_file_playing:
  "lower (player_status missing_file_world ''spotify.instance2'') = ''playing''"
  by code_simp

lemma missing_file_metadata:
  "player_metadata missing_file_world ''spotify.instance2'' =
     Inr (Some \<lparr>md_title = ''A'', md_artist = ''B'', md_album = [],
                md_artUrl = ''file:///tmp/missing.jpg'',
                md_player = ''spotify.instance2'', md_position = Finite 0,
                md_length = Finite 0\<rparr>)"
  by code_simp

lemma missing_file_absent:
  "startswith ''file:///tmp/missing.jpg'' ''file://'' \<and>
   drop 7 ''file:///tmp/missing.jpg'' = ''/tmp/missing.jpg'' \<and>
   \<not> path_exists missing_file_world ''/tmp/missing.jpg''"
  by code_simp

theorem get_now_playing_cover_policy_witness:
  "(list_players (run_list scenario_world) = [''firefox.instance1''] @ ''spotify.instance2'' # [] \<and>
    lower (player_status scenario_world ''firefox.instance1'') \<noteq> ''playing'' \<and>
    lower (player_status scenario_world ''spotify.instance2'') = ''playing'' \<and>
    fst (get_now_playing scenario_world ''key'' (network_with ''http://img/x.jpg'') 100
           initial_state) =
      Inr (Playing ''A'' ''B'' [] (JStr ''http://img/x.jpg'') ''spotify.instance2''
             (Finite 0) (Finite 0))) \<and>
   (startswith ''file:///tmp/missing.jpg'' ''file://'' \<and>
    \<not> path_exists missing_file_world (drop 7 ''file:///tmp/missing.jpg'') \<and>
    fst (get_now_playing missing_file_world ''key'' (network_with ''http://img/x.jpg'') 100
           initial_state) =
      Inr (Playing ''A'' ''B'' [] (JStr ''http://img/x.jpg'') ''spotify.instance2''
             (Finite 0) (Finite 0)))"
proof -
  have none: "\<forall>q \<in> set []. lower (player_status missing_file_world q) = ''playing'' \<longrightarrow>
      player_metadata missing_file_world q = Inr None"
    by simp
  from get_now_playing_cover_policy [OF scenario_players scenario_skipped scenario_playing
      scenario_metadata, of "''key''" "network_with ''http://img/x.jpg''" 100 initial_state]
  have remote: "fst (get_now_playing scenario_world ''key'' (network_with ''http://img/x.jpg'') 100
           initial_state) =
      Inr (Playing ''A'' ''B'' [] (JStr ''http://img/x.jpg'') ''spotify.instance2''
             (Finite 0) (Finite 0))"
    by (simp add: scenario_lookup)
  from get_now_playing_cover_policy [OF missing_file_players none missing_file_playing
      missing_file_metadata, of "''key''" "network_with ''http://img/x.jpg''" 100 initial_state]
    missing_file_absent
  have fallback: "fst (get_now_playing missing_file_world ''key''
           (network_with ''http://img/x.jpg'') 100 initial_state) =
      Inr (Playing ''A'' ''B'' [] (JStr ''http://img/x.jpg'') ''spotify.instance2''
             (Finite 0) (Finite 0))"
    by (simp add: scenario_lookup)
  have paused: "lower (player_status scenario_world ''firefox.instance1'') \<noteq> ''playing''"
    by code_simp
  from remote fallback scenario_players paused scenario_playing missing_file_absent
  show ?thesis by simp
qed

end
